theory Spec2Isabelle
  imports Complex_Main "HOL-Library.Sublist"
begin

section \<open>Values exchanged with the collaborators\<close>

text \<open>
  Every \<^verbatim>\<open>await\<close> on the store, the page or an audit engine either resolves
  with a value or rejects with an error; the error is kept as its message. A reply of
  the store that reports an error without rejecting is a resolved await: the code looks
  at a reply only after the insert of a test row, where it reads the row
  (\<open>None\<close> is the reply without a row).
\<close>

datatype 'a outcome = Resolves 'a | Rejects string

text \<open>
  The scanners hand \<^verbatim>\<open>{ severity }\<close> objects to the orchestrator. The severity is a
  string in the source and stays one here, so that the \<^verbatim>\<open>|| 0\<close> default of the weight
  lookup is a branch of the model. A text is a list of code units; \<open>length\<close> is the
  source's \<^verbatim>\<open>.length\<close>.
\<close>

record issue =
  severity :: string

text \<open>A JavaScript number that is an exact fraction, or \<^verbatim>\<open>Infinity\<close>/\<^verbatim>\<open>NaN\<close>.\<close>

datatype js_number = Finite rat | NonFinite

record summary_fields =
  totalIssues :: nat
  criticalIssues :: nat
  overallScore :: int
  completedTests :: nat
  totalTests :: nat

datatype summary = Summary summary_fields | SummaryError string

text \<open>
  The requests sent to the store, in the order they are sent. Of a row only the columns
  that the scanners and the orchestrator compute are kept: the scan identifier, the
  target URL, the descriptive texts and the timestamps are the same constants or
  clock readings in every request of one scan.
  \<^item> \<open>InsertTest name category\<close>: a \<^verbatim>\<open>qa_tests\<close> row with status running, progress 0;
  \<^item> \<open>UpdateTest id status score\<close>: the update of a \<^verbatim>\<open>qa_tests\<close> row;
  \<^item> \<open>InsertIssue test_id title severity category\<close>: a \<^verbatim>\<open>qa_issues\<close> row;
  \<^item> \<open>UpdateScan status progress summary\<close>: the update of the \<^verbatim>\<open>qa_scans\<close> row.
\<close>

datatype request =
    InsertTest string string
  | UpdateTest string string "rat option"
  | InsertIssue string string string string
  | UpdateScan string "js_number option" "summary option"

section \<open>Scoring\<close>

text \<open>\<^verbatim>\<open>const weights = { critical: 20, high: 10, medium: 5, low: 2 }\<close>\<close>

definition weights :: "(string \<times> int) list" where
  "weights = [(''critical'', 20), (''high'', 10), (''medium'', 5), (''low'', 2)]"

text \<open>\<^verbatim>\<open>weights[issue.severity] || 0\<close>\<close>

definition weight_or_0 :: "string \<Rightarrow> int" where
  "weight_or_0 sev = (case map_of weights sev of Some w \<Rightarrow> w | None \<Rightarrow> 0)"

text \<open>\<^verbatim>\<open>issues.reduce((sum, issue) => sum + (weights[issue.severity] || 0), 0)\<close>\<close>

definition calculateOverallScore :: "issue list \<Rightarrow> int" where
  "calculateOverallScore issues =
     (let deduction = foldl (\<lambda>sum issue. sum + weight_or_0 (severity issue)) 0 issues
      in max 0 (100 - deduction))"

text \<open>The weight table as the specification words it, defined on the four severities.\<close>

fun spec_weight :: "string \<Rightarrow> int" where
  "spec_weight sev =
     (if sev = ''critical'' then 20 else if sev = ''high'' then 10
      else if sev = ''medium'' then 5 else if sev = ''low'' then 2 else 0)"

section \<open>A scanner's local state and control flow\<close>

text \<open>
  The locals of a \<^verbatim>\<open>scan\<close> call that outlive its \<^verbatim>\<open>try\<close> block (\<^verbatim>\<open>issues\<close>,
  \<^verbatim>\<open>testId\<close>), and the requests sent so far.
\<close>

record mstate =
  issues :: "issue list"
  testId :: "string option"
  sent :: "request list"

definition init_mstate :: mstate where
  "init_mstate = \<lparr>issues = [], testId = None, sent = []\<rparr>"

text \<open>
  A statement of a \<^verbatim>\<open>try\<close> block: it ends normally (\<open>None\<close>) or throws
  (\<open>Some message\<close>), and in both cases leaves a state behind.
\<close>

type_synonym 's stmt = "'s \<Rightarrow> string option \<times> 's"

type_synonym step = "mstate stmt"

definition and_then :: "'s stmt \<Rightarrow> 's stmt \<Rightarrow> 's stmt" where
  "and_then f g s = (case f s of (None, s') \<Rightarrow> g s' | (Some e, s') \<Rightarrow> (Some e, s'))"

definition skip :: "'s stmt" where
  "skip s = (None, s)"

definition throw :: "string \<Rightarrow> 's stmt" where
  "throw e s = (Some e, s)"

text \<open>An awaited request whose reply is discarded: the request is sent, and the await may reject.\<close>

definition await_store :: "request \<Rightarrow> unit outcome \<Rightarrow> step" where
  "await_store r out s =
     (let s' = s\<lparr>sent := sent s @ [r]\<rparr>
      in case out of Resolves _ \<Rightarrow> (None, s') | Rejects e \<Rightarrow> (Some e, s'))"

text \<open>\<^verbatim>\<open>issues.push({ severity })\<close>\<close>

definition push_issue :: "string \<Rightarrow> step" where
  "push_issue sev s = (None, s\<lparr>issues := issues s @ [\<lparr>severity = sev\<rparr>]\<rparr>)"

text \<open>
  The insert of an issue row followed by the push of its severity; the push happens only
  after the insert has resolved (\<^verbatim>\<open>issues.push(await this.createIssue(...))\<close>, or
  \<^verbatim>\<open>await this.createIssue(...); issues.push(...)\<close>).
\<close>

definition createIssue :: "string \<Rightarrow> string \<Rightarrow> string \<Rightarrow> string \<Rightarrow> unit outcome \<Rightarrow> step" where
  "createIssue category tid title sev out =
     and_then (await_store (InsertIssue tid title sev category) out) (push_issue sev)"

text \<open>
  The first statements of every scanner: insert the \<^verbatim>\<open>qa_tests\<close> row, throw when the
  reply carries no row, otherwise set \<^verbatim>\<open>testId\<close> and go on with the checks.
\<close>

definition create_test ::
  "string \<Rightarrow> string \<Rightarrow> string \<Rightarrow> string option outcome \<Rightarrow> (string \<Rightarrow> step) \<Rightarrow> step" where
  "create_test name category failure out body s =
     (let s' = s\<lparr>sent := sent s @ [InsertTest name category]\<rparr>
      in case out of
           Rejects e \<Rightarrow> (Some e, s')
         | Resolves None \<Rightarrow> (Some failure, s')
         | Resolves (Some tid) \<Rightarrow> body tid (s'\<lparr>testId := Some tid\<rparr>))"

text \<open>\<^verbatim>\<open>Math.max(0, 100 - (issues.length * per_issue))\<close>\<close>

definition flat_score :: "nat \<Rightarrow> issue list \<Rightarrow> rat" where
  "flat_score per_issue iss = of_int (max 0 (100 - int (length iss) * int per_issue))"

text \<open>The update that closes the \<^verbatim>\<open>try\<close> block of SEO, Security, Accessibility and Best Practices.\<close>

definition complete_test :: "string \<Rightarrow> nat \<Rightarrow> unit outcome \<Rightarrow> step" where
  "complete_test tid per_issue out s =
     await_store (UpdateTest tid ''completed'' (Some (flat_score per_issue (issues s)))) out s"

text \<open>
  What a \<^verbatim>\<open>scan\<close> call gives back: the promise's outcome and the requests it sent.
\<close>

record scan_result =
  result :: "issue list outcome"
  requests :: "request list"

text \<open>
  The \<^verbatim>\<open>catch\<close> block and the \<^verbatim>\<open>return issues\<close> that every scanner repeats. The
  identifiers the store hands out are not empty, so \<^verbatim>\<open>if (testId)\<close> is the test for
  \<^verbatim>\<open>null\<close>. The update in the handler is awaited outside any \<^verbatim>\<open>try\<close>.
\<close>

definition catch_block :: "unit outcome \<Rightarrow> string option \<times> mstate \<Rightarrow> scan_result" where
  "catch_block fail_out r =
     (case r of
        (None, s) \<Rightarrow> \<lparr>result = Resolves (issues s), requests = sent s\<rparr>
      | (Some e, s) \<Rightarrow>
          (case testId s of
             None \<Rightarrow> \<lparr>result = Resolves (issues s), requests = sent s\<rparr>
           | Some tid \<Rightarrow>
               (case fail_out of
                  Resolves _ \<Rightarrow>
                    \<lparr>result = Resolves (issues s),
                     requests = sent s @ [UpdateTest tid ''failed'' None]\<rparr>
                | Rejects e' \<Rightarrow>
                    \<lparr>result = Rejects e',
                     requests = sent s @ [UpdateTest tid ''failed'' None]\<rparr>)))"

section \<open>SEOScanner\<close>

text \<open>
  The collaborators of one \<^verbatim>\<open>scan\<close> call are given by the outcome of each of its
  awaits, in source order: the insert of the test row, \<^verbatim>\<open>page.title()\<close>, the insert
  of the title issue, the count of the meta description elements, the content attribute
  of the first of them, the insert of the meta description issue, the count of the H1
  elements, the insert of the H1 issue, the completing update and the update in the
  handler. The other scanners follow the same scheme.
\<close>

record seo_env =
  seo_test_insert :: "string option outcome"
  seo_page_title :: "string outcome"
  seo_title_issue :: "unit outcome"
  seo_meta_count :: "nat outcome"
  seo_meta_content :: "string option outcome"
  seo_meta_issue :: "unit outcome"
  seo_h1_count :: "nat outcome"
  seo_h1_issue :: "unit outcome"
  seo_complete :: "unit outcome"
  seo_failed :: "unit outcome"

definition seo_check_title :: "seo_env \<Rightarrow> string \<Rightarrow> step" where
  "seo_check_title env tid =
     (case seo_page_title env of
        Rejects e \<Rightarrow> throw e
      | Resolves title \<Rightarrow>
          if title = [] then
            createIssue ''seo'' tid ''Missing Title Tag'' ''high'' (seo_title_issue env)
          else if length title > 60 then
            createIssue ''seo'' tid ''Title Tag Too Long'' ''medium'' (seo_title_issue env)
          else skip)"

definition seo_check_meta :: "seo_env \<Rightarrow> string \<Rightarrow> step" where
  "seo_check_meta env tid =
     (case seo_meta_count env of
        Rejects e \<Rightarrow> throw e
      | Resolves metaCount \<Rightarrow>
          if metaCount = 0 then
            createIssue ''seo'' tid ''Missing Meta Description'' ''high'' (seo_meta_issue env)
          else
            (case seo_meta_content env of
               Rejects e \<Rightarrow> throw e
             | Resolves metaDescription \<Rightarrow>
                 if metaDescription = None \<or> metaDescription = Some [] then
                   createIssue ''seo'' tid ''Missing Meta Description'' ''high'' (seo_meta_issue env)
                 else if length (the metaDescription) > 160 then
                   createIssue ''seo'' tid ''Meta Description Too Long'' ''medium'' (seo_meta_issue env)
                 else skip))"

definition seo_check_h1 :: "seo_env \<Rightarrow> string \<Rightarrow> step" where
  "seo_check_h1 env tid =
     (case seo_h1_count env of
        Rejects e \<Rightarrow> throw e
      | Resolves h1Count \<Rightarrow>
          if h1Count = 0 then
            createIssue ''seo'' tid ''Missing H1 Tag'' ''high'' (seo_h1_issue env)
          else if h1Count > 1 then
            createIssue ''seo'' tid ''Multiple H1 Tags'' ''medium'' (seo_h1_issue env)
          else skip)"

definition SEOScanner_try :: "seo_env \<Rightarrow> step" where
  "SEOScanner_try env =
     create_test ''SEO Audit'' ''seo'' ''Failed to create SEO test record.'' (seo_test_insert env)
       (\<lambda>tid. and_then (seo_check_title env tid)
              (and_then (seo_check_meta env tid)
              (and_then (seo_check_h1 env tid)
                        (complete_test tid 10 (seo_complete env)))))"

definition SEOScanner_scan :: "seo_env \<Rightarrow> scan_result" where
  "SEOScanner_scan env = catch_block (seo_failed env) (SEOScanner_try env init_mstate)"

section \<open>SecurityScanner\<close>

text \<open>
  \<^verbatim>\<open>page.goto(url)\<close> resolves with a response or \<^verbatim>\<open>null\<close>, or rejects;
  what it does depends on the URL it is given. \<^verbatim>\<open>response?.headers() || {}\<close> is
  then the header table or the empty one.
\<close>

record sec_env =
  sec_test_insert :: "string option outcome"
  sec_goto :: "string \<Rightarrow> (string \<rightharpoonup> string) option outcome"
  sec_https_issue :: "unit outcome"
  sec_csp_issue :: "unit outcome"
  sec_xfo_issue :: "unit outcome"
  sec_complete :: "unit outcome"
  sec_failed :: "unit outcome"

text \<open>\<^verbatim>\<open>url.startsWith('https')\<close>\<close>

definition startsWith :: "string \<Rightarrow> string \<Rightarrow> bool" where
  "startsWith s p = (take (length p) s = p)"

text \<open>\<^verbatim>\<open>!securityHeaders[name]\<close>: the header is absent or the empty string.\<close>

definition header_missing :: "(string \<rightharpoonup> string) \<Rightarrow> string \<Rightarrow> bool" where
  "header_missing hs name = (case hs name of None \<Rightarrow> True | Some v \<Rightarrow> v = [])"

text \<open>\<^verbatim>\<open>response?.headers() || {}\<close>\<close>

definition headers_or_empty :: "(string \<rightharpoonup> string) option \<Rightarrow> (string \<rightharpoonup> string)" where
  "headers_or_empty response = (case response of None \<Rightarrow> Map.empty | Some hs \<Rightarrow> hs)"

definition sec_checks :: "sec_env \<Rightarrow> string \<Rightarrow> string \<Rightarrow> step" where
  "sec_checks env url tid =
     (case sec_goto env url of
        Rejects e \<Rightarrow> throw e
      | Resolves response \<Rightarrow>
          (let securityHeaders = headers_or_empty response
           in and_then
                (if \<not> startsWith url ''https'' then
                   createIssue ''security'' tid ''No HTTPS'' ''high'' (sec_https_issue env)
                 else skip)
             (and_then
                (if header_missing securityHeaders ''content-security-policy'' then
                   createIssue ''security'' tid ''Missing Content-Security-Policy Header''
                     ''medium'' (sec_csp_issue env)
                 else skip)
                (if header_missing securityHeaders ''x-frame-options'' then
                   createIssue ''security'' tid ''Missing X-Frame-Options Header''
                     ''medium'' (sec_xfo_issue env)
                 else skip))))"

definition SecurityScanner_try :: "sec_env \<Rightarrow> string \<Rightarrow> step" where
  "SecurityScanner_try env url =
     create_test ''Security Audit'' ''security'' ''Failed to create Security test record.''
       (sec_test_insert env)
       (\<lambda>tid. and_then (sec_checks env url tid) (complete_test tid 10 (sec_complete env)))"

definition SecurityScanner_scan :: "sec_env \<Rightarrow> string \<Rightarrow> scan_result" where
  "SecurityScanner_scan env url =
     catch_block (sec_failed env) (SecurityScanner_try env url init_mstate)"

section \<open>BestPracticesScanner\<close>

text \<open>
  The listener collects the texts of the console messages of type error while the
  navigation is awaited; \<open>bp_goto\<close> resolves with the texts collected by then.
\<close>

record bp_env =
  bp_test_insert :: "string option outcome"
  bp_goto :: "string list outcome"
  bp_issue :: "unit outcome"
  bp_complete :: "unit outcome"
  bp_failed :: "unit outcome"

definition bp_checks :: "bp_env \<Rightarrow> string \<Rightarrow> step" where
  "bp_checks env tid =
     (case bp_goto env of
        Rejects e \<Rightarrow> throw e
      | Resolves consoleErrors \<Rightarrow>
          if length consoleErrors > 0 then
            createIssue ''best_practices'' tid ''Console Errors Found'' ''medium'' (bp_issue env)
          else skip)"

definition BestPracticesScanner_try :: "bp_env \<Rightarrow> step" where
  "BestPracticesScanner_try env =
     create_test ''Best Practices Audit'' ''best_practices''
       ''Failed to create Best Practices test record.'' (bp_test_insert env)
       (\<lambda>tid. and_then (bp_checks env tid) (complete_test tid 10 (bp_complete env)))"

definition BestPracticesScanner_scan :: "bp_env \<Rightarrow> scan_result" where
  "BestPracticesScanner_scan env =
     catch_block (bp_failed env) (BestPracticesScanner_try env init_mstate)"

section \<open>AccessibilityScanner\<close>

text \<open>
  A violation reported by the rule engine: its impact (\<^verbatim>\<open>null\<close> is \<open>None\<close>), its \<^verbatim>\<open>help\<close>
  text and its affected nodes, each node given by its HTML snippet.
\<close>

record violation =
  impact :: "string option"
  help_text :: string
  nodes :: "string list"

text \<open>\<open>a11y_issue env n\<close> is the outcome of the insert sent when \<open>n\<close> issues have been pushed.\<close>

record a11y_env =
  a11y_test_insert :: "string option outcome"
  a11y_analyze :: "violation list outcome"
  a11y_issue :: "nat \<Rightarrow> unit outcome"
  a11y_complete :: "unit outcome"
  a11y_failed :: "unit outcome"

definition impact_mapping :: "(string \<times> string) list" where
  "impact_mapping =
     [(''critical'', ''critical''), (''serious'', ''high''),
      (''moderate'', ''medium''), (''minor'', ''low'')]"

text \<open>
  \<^verbatim>\<open>(impact && mapping[impact]) || 'medium'\<close>, for an impact that is \<^verbatim>\<open>null\<close> or a
  string that names no inherited property of the table object.
\<close>

definition mapImpact :: "string option \<Rightarrow> string" where
  "mapImpact i =
     (case i of
        None \<Rightarrow> ''medium''
      | Some v \<Rightarrow>
          if v = [] then ''medium''
          else (case map_of impact_mapping v of Some sev \<Rightarrow> sev | None \<Rightarrow> ''medium''))"

fun a11y_nodes :: "a11y_env \<Rightarrow> string \<Rightarrow> string \<Rightarrow> string \<Rightarrow> string list \<Rightarrow> step" where
  "a11y_nodes env tid title sev [] s = (None, s)"
| "a11y_nodes env tid title sev (node # rest) s =
     (case createIssue ''accessibility'' tid title sev (a11y_issue env (length (issues s))) s of
        (None, s') \<Rightarrow> a11y_nodes env tid title sev rest s'
      | (Some e, s') \<Rightarrow> (Some e, s'))"

fun a11y_violations :: "a11y_env \<Rightarrow> string \<Rightarrow> violation list \<Rightarrow> step" where
  "a11y_violations env tid [] s = (None, s)"
| "a11y_violations env tid (v # rest) s =
     (case a11y_nodes env tid (help_text v) (mapImpact (impact v)) (nodes v) s of
        (None, s') \<Rightarrow> a11y_violations env tid rest s'
      | (Some e, s') \<Rightarrow> (Some e, s'))"

definition a11y_checks :: "a11y_env \<Rightarrow> string \<Rightarrow> step" where
  "a11y_checks env tid =
     (case a11y_analyze env of
        Rejects e \<Rightarrow> throw e
      | Resolves violations \<Rightarrow> a11y_violations env tid violations)"

definition AccessibilityScanner_try :: "a11y_env \<Rightarrow> step" where
  "AccessibilityScanner_try env =
     create_test ''Accessibility Audit'' ''accessibility''
       ''Failed to create accessibility test record.'' (a11y_test_insert env)
       (\<lambda>tid. and_then (a11y_checks env tid) (complete_test tid 5 (a11y_complete env)))"

definition AccessibilityScanner_scan :: "a11y_env \<Rightarrow> scan_result" where
  "AccessibilityScanner_scan env =
     catch_block (a11y_failed env) (AccessibilityScanner_try env init_mstate)"

section \<open>PerformanceScanner\<close>

text \<open>
  An audit of the engine's report (its score is a number or \<^verbatim>\<open>null\<close>) and the part of
  the report that the scanner reads. \<open>perf_browser\<close> tells whether
  \<^verbatim>\<open>page.context().browser()\<close> is a browser; \<open>perf_port\<close> is the evaluation of
  \<^verbatim>\<open>new URL(browser.wsEndpoint()).port\<close>; \<open>perf_lighthouse\<close> resolves with the
  runner's result or \<^verbatim>\<open>undefined\<close>.
\<close>

record lh_audit =
  audit_score :: "rat option"
  audit_title :: string

record lh_result =
  server_response_time :: "lh_audit option"
  largest_contentful_paint :: "lh_audit option"
  performance_score :: "rat option"

record perf_env =
  perf_test_insert :: "string option outcome"
  perf_browser :: bool
  perf_port :: "string outcome"
  perf_lighthouse :: "lh_result option outcome"
  perf_srt_issue :: "unit outcome"
  perf_lcp_issue :: "unit outcome"
  perf_complete :: "unit outcome"
  perf_failed :: "unit outcome"

text \<open>
  \<^verbatim>\<open>if (audits[name]?.score !== 1) { ... audits[name].title ... }\<close>: for an audit that
  the report lacks the test holds and the read of its title throws a TypeError.
\<close>

definition perf_check_audit :: "string \<Rightarrow> lh_audit option \<Rightarrow> unit outcome \<Rightarrow> step" where
  "perf_check_audit tid audit out =
     (case audit of
        None \<Rightarrow> throw ''TypeError''
      | Some a \<Rightarrow>
          if audit_score a \<noteq> Some 1 then
            createIssue ''performance'' tid (audit_title a) ''high'' out
          else skip)"

definition perf_checks :: "perf_env \<Rightarrow> string \<Rightarrow> step" where
  "perf_checks env tid =
     (if \<not> perf_browser env then throw ''Browser is not available for Lighthouse scan.''
      else
        (case perf_port env of
           Rejects e \<Rightarrow> throw e
         | Resolves port \<Rightarrow>
             (case perf_lighthouse env of
                Rejects e \<Rightarrow> throw e
              | Resolves None \<Rightarrow> throw ''TypeError''
              | Resolves (Some lhr) \<Rightarrow>
                  (let score = (case performance_score lhr of None \<Rightarrow> 0 | Some x \<Rightarrow> x) * 100
                   in and_then
                        (perf_check_audit tid (server_response_time lhr) (perf_srt_issue env))
                     (and_then
                        (perf_check_audit tid (largest_contentful_paint lhr) (perf_lcp_issue env))
                        (await_store (UpdateTest tid ''completed'' (Some score))
                           (perf_complete env)))))))"

definition PerformanceScanner_try :: "perf_env \<Rightarrow> step" where
  "PerformanceScanner_try env =
     create_test ''Performance Analysis'' ''performance''
       ''Failed to create performance test record.'' (perf_test_insert env)
       (perf_checks env)"

definition PerformanceScanner_scan :: "perf_env \<Rightarrow> scan_result" where
  "PerformanceScanner_scan env =
     catch_block (perf_failed env) (PerformanceScanner_try env init_mstate)"

section \<open>ScanOrchestrator\<close>

text \<open>
  \<^verbatim>\<open>settings.tests\<close>: the five optional flags that the interface declares (an absent
  flag is \<open>None\<close>) and the values of the other own properties of the object, which
  reaches the orchestrator as the caller sent it. Of every value its truthiness is kept.
  Of a request the target URL and this object are kept.
\<close>

record tests_flags =
  performance :: "bool option"
  accessibility :: "bool option"
  seo :: "bool option"
  security :: "bool option"
  best_practices :: "bool option"
  other_values :: "bool list"

record scan_request =
  url :: string
  settings_tests :: "tests_flags option"

text \<open>
  The collaborators of one \<^verbatim>\<open>performCompleteScan\<close> call: whether \<^verbatim>\<open>this.browser\<close>
  is set on entry, the outcome of every await of the orchestrator in source order, and
  the collaborators of the five scanners.
\<close>

record orch_env =
  browser_set :: bool
  upd_start :: "unit outcome"
  launch :: "unit outcome"
  newContext :: "unit outcome"
  newPage :: "unit outcome"
  goto :: "unit outcome"
  upd_navigated :: "unit outcome"
  perf_collab :: perf_env
  upd_perf :: "unit outcome"
  a11y_collab :: a11y_env
  upd_a11y :: "unit outcome"
  seo_collab :: seo_env
  upd_seo :: "unit outcome"
  sec_collab :: sec_env
  upd_sec :: "unit outcome"
  bp_collab :: bp_env
  upd_bp :: "unit outcome"
  complete_out :: "unit outcome"
  close_out :: "unit outcome"
  fail_out :: "unit outcome"

text \<open>The locals \<^verbatim>\<open>allIssues\<close> and \<^verbatim>\<open>completedTests\<close>, and the requests sent so far.\<close>

record ostate =
  allIssues :: "issue list"
  completed :: nat
  written :: "request list"

definition init_ostate :: ostate where
  "init_ostate = \<lparr>allIssues = [], completed = 0, written = []\<rparr>"

text \<open>An await on the browser or the page.\<close>

definition await_ext :: "unit outcome \<Rightarrow> 's stmt" where
  "await_ext out s = (case out of Resolves _ \<Rightarrow> (None, s) | Rejects e \<Rightarrow> (Some e, s))"

definition await_scan_update :: "request \<Rightarrow> unit outcome \<Rightarrow> ostate stmt" where
  "await_scan_update r out s =
     (let s' = s\<lparr>written := written s @ [r]\<rparr>
      in case out of Resolves _ \<Rightarrow> (None, s') | Rejects e \<Rightarrow> (Some e, s'))"

definition updateScanStatus :: "string \<Rightarrow> js_number \<Rightarrow> unit outcome \<Rightarrow> ostate stmt" where
  "updateScanStatus status progress out = await_scan_update (UpdateScan status (Some progress) None) out"

definition completeScan :: "summary_fields \<Rightarrow> unit outcome \<Rightarrow> ostate stmt" where
  "completeScan summ out =
     await_scan_update (UpdateScan ''completed'' (Some (Finite 100)) (Some (Summary summ))) out"

definition failScan :: "string \<Rightarrow> unit outcome \<Rightarrow> ostate stmt" where
  "failScan error out =
     await_scan_update (UpdateScan ''failed'' None (Some (SummaryError error))) out"

text \<open>A flag is truthy when it is present with a truthy value.\<close>

definition truthy :: "bool option \<Rightarrow> bool" where
  "truthy v = (v = Some True)"

definition default_tests :: tests_flags where
  "default_tests =
     \<lparr>performance = Some True, accessibility = Some True, seo = Some True,
      security = Some True, best_practices = Some True, other_values = []\<rparr>"

text \<open>\<^verbatim>\<open>settings.tests || { performance: true, ... }\<close>\<close>

definition testsToRun :: "scan_request \<Rightarrow> tests_flags" where
  "testsToRun req = (case settings_tests req of None \<Rightarrow> default_tests | Some t \<Rightarrow> t)"

text \<open>
  \<^verbatim>\<open>Object.values(testsToRun).filter(v => v).length\<close>: the values of all own
  properties of the object, those of the flags that are present and those of the other
  properties, and the number of truthy ones among them. (The order of the values, which
  is the order in which the properties were set, does not matter for the count.)
\<close>

definition object_values :: "tests_flags \<Rightarrow> bool list" where
  "object_values t =
     concat (map (\<lambda>v. case v of None \<Rightarrow> [] | Some b \<Rightarrow> [b])
       [performance t, accessibility t, seo t, security t, best_practices t])
     @ other_values t"

definition count_truthy :: "tests_flags \<Rightarrow> nat" where
  "count_truthy t = length (filter (\<lambda>v. v) (object_values t))"

text \<open>
  \<^verbatim>\<open>10 + (completedTests / totalTests) * 80\<close>. A division by zero gives
  \<^verbatim>\<open>Infinity\<close> or \<^verbatim>\<open>NaN\<close>, and so does the sum built on it. The quotient
  and the sum are kept as exact fractions; the rounding of the double arithmetic, which
  keeps the order of the values, is left out.
\<close>

definition js_div :: "nat \<Rightarrow> nat \<Rightarrow> js_number" where
  "js_div a b = (if b = 0 then NonFinite else Finite (of_nat a / of_nat b))"

definition module_progress :: "nat \<Rightarrow> nat \<Rightarrow> js_number" where
  "module_progress done_n total_n =
     (case js_div done_n total_n of NonFinite \<Rightarrow> NonFinite | Finite q \<Rightarrow> Finite (10 + q * 80))"

text \<open>
  One of the five \<^verbatim>\<open>if (testsToRun.x) { ... }\<close> blocks: run the scanner, append what it
  returns, count it, write the progress. A scan call that rejects leaves the block.
\<close>

definition run_scanner :: "bool \<Rightarrow> scan_result \<Rightarrow> nat \<Rightarrow> unit outcome \<Rightarrow> ostate stmt" where
  "run_scanner enabled r total_n out s =
     (if \<not> enabled then (None, s)
      else
        (let s1 = s\<lparr>written := written s @ requests r\<rparr>
         in case result r of
              Rejects e \<Rightarrow> (Some e, s1)
            | Resolves found \<Rightarrow>
                (let s2 = s1\<lparr>allIssues := allIssues s1 @ found, completed := completed s1 + 1\<rparr>
                 in updateScanStatus ''running'' (module_progress (completed s2) total_n) out s2)))"

definition make_summary :: "issue list \<Rightarrow> nat \<Rightarrow> summary_fields" where
  "make_summary found total_n =
     (let criticalCount = length (filter (\<lambda>i. severity i = ''critical'') found);
          highCount = length (filter (\<lambda>i. severity i = ''high'') found)
      in \<lparr>totalIssues = length found,
          criticalIssues = criticalCount + highCount,
          overallScore = calculateOverallScore found,
          completedTests = total_n,
          totalTests = total_n\<rparr>)"

definition run_scanners :: "orch_env \<Rightarrow> scan_request \<Rightarrow> ostate stmt" where
  "run_scanners env req =
     (let t = testsToRun req; total_n = count_truthy t
      in and_then (run_scanner (truthy (performance t))
                     (PerformanceScanner_scan (perf_collab env)) total_n (upd_perf env))
        (and_then (run_scanner (truthy (accessibility t))
                     (AccessibilityScanner_scan (a11y_collab env)) total_n (upd_a11y env))
        (and_then (run_scanner (truthy (seo t))
                     (SEOScanner_scan (seo_collab env)) total_n (upd_seo env))
        (and_then (run_scanner (truthy (security t))
                     (SecurityScanner_scan (sec_collab env) (url req)) total_n (upd_sec env))
        (and_then (run_scanner (truthy (best_practices t))
                     (BestPracticesScanner_scan (bp_collab env)) total_n (upd_bp env))
                  (\<lambda>s. and_then (completeScan (make_summary (allIssues s) total_n) (complete_out env))
                                (await_ext (close_out env)) s))))))"

definition scan_setup :: "orch_env \<Rightarrow> ostate stmt" where
  "scan_setup env =
     and_then (updateScanStatus ''running'' (Finite 0) (upd_start env))
    (and_then (if \<not> browser_set env then await_ext (launch env) else skip)
    (and_then (await_ext (newContext env))
    (and_then (await_ext (newPage env))
    (and_then (await_ext (goto env))
              (updateScanStatus ''running'' (Finite 5) (upd_navigated env))))))"

definition orchestrator_try :: "orch_env \<Rightarrow> scan_request \<Rightarrow> ostate stmt" where
  "orchestrator_try env req = and_then (scan_setup env) (run_scanners env req)"

text \<open>
  \<^verbatim>\<open>performCompleteScan\<close>: the \<^verbatim>\<open>try\<close> block and the handler, which awaits
  \<^verbatim>\<open>failScan\<close> with the error's message. The promise rejects only when that await does.
\<close>

record orch_result =
  rejected :: "string option"
  store_log :: "request list"

definition performCompleteScan :: "orch_env \<Rightarrow> scan_request \<Rightarrow> orch_result" where
  "performCompleteScan env req =
     (case orchestrator_try env req init_ostate of
        (None, s) \<Rightarrow> \<lparr>rejected = None, store_log = written s\<rparr>
      | (Some e, s) \<Rightarrow>
          (case failScan e (fail_out env) s of
             (r, s') \<Rightarrow> \<lparr>rejected = r, store_log = written s'\<rparr>))"

section \<open>Notions used in the statements\<close>

text \<open>The updates of the \<^verbatim>\<open>qa_scans\<close> row among the requests of a log.\<close>

fun is_scan_update :: "request \<Rightarrow> bool" where
  "is_scan_update (UpdateScan st p sm) = True"
| "is_scan_update r = False"

definition scan_updates :: "request list \<Rightarrow> request list" where
  "scan_updates rs = filter is_scan_update rs"

text \<open>
  A statement of a scanner leaves an observation of the state stable when the
  observation has the same value before and after it, whether it throws or not. The
  observations used are the identifier of the test row and the requests of one kind
  among those sent.
\<close>

definition stable :: "(mstate \<Rightarrow> 'a) \<Rightarrow> step \<Rightarrow> bool" where
  "stable obs f = (\<forall>s. obs (snd (f s)) = obs s)"

definition sent_where :: "(request \<Rightarrow> bool) \<Rightarrow> mstate \<Rightarrow> request list" where
  "sent_where P s = filter P (sent s)"

text \<open>The issue inserts that carry a given title, and their severities in the order sent.\<close>

fun is_issue_titled :: "string \<Rightarrow> request \<Rightarrow> bool" where
  "is_issue_titled T (InsertIssue tid title sev category) = (title = T)"
| "is_issue_titled T r = False"

fun issue_severity :: "request \<Rightarrow> string" where
  "issue_severity (InsertIssue tid title sev category) = sev"
| "issue_severity r = []"

definition issues_titled :: "string \<Rightarrow> request list \<Rightarrow> string list" where
  "issues_titled T rs = map issue_severity (filter (is_issue_titled T) rs)"

text \<open>The scheme of a URL as the specification names it: the text before the first colon.\<close>

definition url_scheme :: "string \<Rightarrow> string" where
  "url_scheme u = takeWhile (\<lambda>c. c \<noteq> CHR '':'') u"

text \<open>What a scan call hands to the orchestrator when its promise resolves.\<close>

definition returned :: "scan_result \<Rightarrow> issue list" where
  "returned r = (case result r of Resolves xs \<Rightarrow> xs | Rejects e \<Rightarrow> [])"

text \<open>
  The five blocks of the orchestrator as a list, in source order: the flag, the scan
  call and the outcome of the status update that follows it. \<open>run_list\<close> runs such a
  list the way \<open>run_scanners\<close> chains its blocks.
\<close>

definition scanner_runs ::
  "orch_env \<Rightarrow> scan_request \<Rightarrow> (bool \<times> scan_result \<times> unit outcome) list" where
  "scanner_runs env req =
     (let t = testsToRun req
      in [(truthy (performance t), PerformanceScanner_scan (perf_collab env), upd_perf env),
          (truthy (accessibility t), AccessibilityScanner_scan (a11y_collab env), upd_a11y env),
          (truthy (seo t), SEOScanner_scan (seo_collab env), upd_seo env),
          (truthy (security t), SecurityScanner_scan (sec_collab env) (url req), upd_sec env),
          (truthy (best_practices t), BestPracticesScanner_scan (bp_collab env), upd_bp env)])"

fun run_list :: "(bool \<times> scan_result \<times> unit outcome) list \<Rightarrow> nat \<Rightarrow> ostate stmt" where
  "run_list [] n s = (None, s)"
| "run_list ((en, r, out) # rest) n s =
     (case run_scanner en r n out s of
        (None, s') \<Rightarrow> run_list rest n s'
      | (Some e, s') \<Rightarrow> (Some e, s'))"

text \<open>
  The names of the enabled modules, the number of truthy properties of the tests object
  that name no module, and the issues that the scan calls of the enabled modules return,
  in source order.
\<close>

definition enabled_modules :: "scan_request \<Rightarrow> string list" where
  "enabled_modules req =
     (let t = testsToRun req
      in map fst (filter (\<lambda>(name, flag). truthy flag)
           [(''performance'', performance t), (''accessibility'', accessibility t),
            (''seo'', seo t), (''security'', security t),
            (''best_practices'', best_practices t)]))"

definition extra_truthy :: "scan_request \<Rightarrow> nat" where
  "extra_truthy req = length (filter (\<lambda>v. v) (other_values (testsToRun req)))"

definition collected_issues :: "orch_env \<Rightarrow> scan_request \<Rightarrow> issue list" where
  "collected_issues env req =
     concat (map (\<lambda>(en, r, out). returned r) (filter fst (scanner_runs env req)))"

text \<open>
  The updates of the scan row of a scan with \<open>n\<close> enabled modules that runs to its end,
  when \<^verbatim>\<open>totalTests\<close> is \<open>T\<close>: the two of the set-up, one after each module, and the
  completing one.
\<close>

definition progress_update :: "nat \<Rightarrow> nat \<Rightarrow> request" where
  "progress_update T k = UpdateScan ''running'' (Some (module_progress k T)) None"

definition expected_updates :: "nat \<Rightarrow> nat \<Rightarrow> summary_fields \<Rightarrow> request list" where
  "expected_updates T n summ =
     [UpdateScan ''running'' (Some (Finite 0)) None, UpdateScan ''running'' (Some (Finite 5)) None]
     @ map (progress_update T) [1..<Suc n]
     @ [UpdateScan ''completed'' (Some (Finite 100)) (Some (Summary summ))]"

definition fail_update :: "string \<Rightarrow> request" where
  "fail_update e = UpdateScan ''failed'' None (Some (SummaryError e))"

text \<open>The progress values that a log writes to the scan row, in order.\<close>

fun progress_writes :: "request list \<Rightarrow> js_number list" where
  "progress_writes [] = []"
| "progress_writes (UpdateScan st (Some p) sm # rs) = p # progress_writes rs"
| "progress_writes (r # rs) = progress_writes rs"

text \<open>
  The progress values of a scan with \<open>n\<close> enabled modules that runs to its end, when
  \<^verbatim>\<open>totalTests\<close> is \<open>T\<close>; and the value that the specification gives for the
  progress after the \<open>k\<close>-th of \<open>n\<close> modules when the set-up checkpoint is \<open>X\<close>.
\<close>

definition progress_sequence :: "nat \<Rightarrow> nat \<Rightarrow> rat list" where
  "progress_sequence T n =
     [0, 5] @ map (\<lambda>k. 10 + (of_nat k / of_nat T) * 80) [1..<Suc n] @ [100]"


text \<open>
  The status and the progress of the scan row. The row is created with status queued and
  progress 0 by the function that accepts the request; every update of the row sets the
  status, and the progress when it carries one.
\<close>

record scan_row =
  row_status :: string
  row_progress :: js_number

definition queued_row :: scan_row where
  "queued_row = \<lparr>row_status = ''queued'', row_progress = Finite 0\<rparr>"

fun apply_request :: "scan_row \<Rightarrow> request \<Rightarrow> scan_row" where
  "apply_request row (UpdateScan st p sm) =
     \<lparr>row_status = st, row_progress = (case p of None \<Rightarrow> row_progress row | Some q \<Rightarrow> q)\<rparr>"
| "apply_request row r = row"

definition row_after :: "request list \<Rightarrow> scan_row" where
  "row_after rs = foldl apply_request queued_row rs"

text \<open>
  Any one of the five scanners with its collaborators (and, for the Security scanner, the
  target URL), with its \<^verbatim>\<open>try\<close> block, its \<^verbatim>\<open>scan\<close> call, the outcome of the
  insert of its test row and the outcome of the update in its handler.
\<close>

datatype scanner =
    Performance perf_env
  | Accessibility a11y_env
  | SEO seo_env
  | Security sec_env string
  | BestPractices bp_env

fun scanner_try :: "scanner \<Rightarrow> step" where
  "scanner_try (Performance e) = PerformanceScanner_try e"
| "scanner_try (Accessibility e) = AccessibilityScanner_try e"
| "scanner_try (SEO e) = SEOScanner_try e"
| "scanner_try (Security e u) = SecurityScanner_try e u"
| "scanner_try (BestPractices e) = BestPracticesScanner_try e"

fun scanner_scan :: "scanner \<Rightarrow> scan_result" where
  "scanner_scan (Performance e) = PerformanceScanner_scan e"
| "scanner_scan (Accessibility e) = AccessibilityScanner_scan e"
| "scanner_scan (SEO e) = SEOScanner_scan e"
| "scanner_scan (Security e u) = SecurityScanner_scan e u"
| "scanner_scan (BestPractices e) = BestPracticesScanner_scan e"

fun scanner_test_insert :: "scanner \<Rightarrow> string option outcome" where
  "scanner_test_insert (Performance e) = perf_test_insert e"
| "scanner_test_insert (Accessibility e) = a11y_test_insert e"
| "scanner_test_insert (SEO e) = seo_test_insert e"
| "scanner_test_insert (Security e u) = sec_test_insert e"
| "scanner_test_insert (BestPractices e) = bp_test_insert e"

fun scanner_failed :: "scanner \<Rightarrow> unit outcome" where
  "scanner_failed (Performance e) = perf_failed e"
| "scanner_failed (Accessibility e) = a11y_failed e"
| "scanner_failed (SEO e) = seo_failed e"
| "scanner_failed (Security e u) = sec_failed e"
| "scanner_failed (BestPractices e) = bp_failed e"

text \<open>The issue inserts and the inserts of test rows among the requests of a log.\<close>

fun is_issue_insert :: "request \<Rightarrow> bool" where
  "is_issue_insert (InsertIssue tid title sev category) = True"
| "is_issue_insert r = False"

fun is_test_insert :: "request \<Rightarrow> bool" where
  "is_test_insert (InsertTest name category) = True"
| "is_test_insert r = False"

text \<open>
  Two runs of a scanner of which the second has pushed the issues \<open>p\<close> before the first
  one's: the states agree on the identifier of the test row, and the issues of the
  second are \<open>p\<close> followed by those of the first. A statement carries \<open>p\<close> when, from
  two such states, it throws or not alike and leaves two such states. What a scan call
  returns with an issue put in front of the list.
\<close>

definition ahead :: "issue list \<Rightarrow> mstate \<Rightarrow> mstate \<Rightarrow> bool" where
  "ahead p s t = (issues t = p @ issues s \<and> testId t = testId s)"

definition carries :: "issue list \<Rightarrow> step \<Rightarrow> bool" where
  "carries p f = (\<forall>s t. ahead p s t \<longrightarrow> fst (f t) = fst (f s) \<and> ahead p (snd (f s)) (snd (f t)))"

fun with_issue :: "issue \<Rightarrow> issue list outcome \<Rightarrow> issue list outcome" where
  "with_issue i (Resolves xs) = Resolves (i # xs)"
| "with_issue i (Rejects e) = Rejects e"

text \<open>A page title that the title check lets pass: not empty, not longer than 60.\<close>

definition plain_title :: string where
  "plain_title = ''Home''"



section \<open>Concrete pages and requests\<close>

text \<open>
  A page with an empty title, no meta description and two H1 elements, answered without
  security headers by a browser that loads the URLs of the schemes http, https and file
  and no other; a rule engine that reports one violation on two nodes; a browser that
  gives the performance scanner no handle, so that this scanner fails internally. Every
  await of the store resolves.
\<close>

definition seo_page :: seo_env where
  "seo_page =
     \<lparr>seo_test_insert = Resolves (Some ''test-seo''),
      seo_page_title = Resolves [],
      seo_title_issue = Resolves (),
      seo_meta_count = Resolves 0,
      seo_meta_content = Resolves None,
      seo_meta_issue = Resolves (),
      seo_h1_count = Resolves 2,
      seo_h1_issue = Resolves (),
      seo_complete = Resolves (),
      seo_failed = Resolves ()\<rparr>"

definition sec_page :: sec_env where
  "sec_page =
     \<lparr>sec_test_insert = Resolves (Some ''test-sec''),
      sec_goto = (\<lambda>u. if url_scheme u \<in> set [''http'', ''https'', ''file'']
                       then Resolves (Some Map.empty)
                       else Rejects ''net::ERR_ABORTED''),
      sec_https_issue = Resolves (),
      sec_csp_issue = Resolves (),
      sec_xfo_issue = Resolves (),
      sec_complete = Resolves (),
      sec_failed = Resolves ()\<rparr>"

definition bp_page :: bp_env where
  "bp_page =
     \<lparr>bp_test_insert = Resolves (Some ''test-bp''),
      bp_goto = Resolves [],
      bp_issue = Resolves (),
      bp_complete = Resolves (),
      bp_failed = Resolves ()\<rparr>"

definition a11y_page :: a11y_env where
  "a11y_page =
     \<lparr>a11y_test_insert = Resolves (Some ''test-a11y''),
      a11y_analyze = Resolves [\<lparr>impact = Some ''serious'', help_text = ''Images must have alternate text'',
                                 nodes = [''<img src=a.png>'', ''<img src=b.png>'']\<rparr>],
      a11y_issue = (\<lambda>n. Resolves ()),
      a11y_complete = Resolves (),
      a11y_failed = Resolves ()\<rparr>"

definition perf_page :: perf_env where
  "perf_page =
     \<lparr>perf_test_insert = Resolves (Some ''test-perf''),
      perf_browser = False,
      perf_port = Resolves ''9222'',
      perf_lighthouse = Resolves None,
      perf_srt_issue = Resolves (),
      perf_lcp_issue = Resolves (),
      perf_complete = Resolves (),
      perf_failed = Resolves ()\<rparr>"

definition all_resolve :: orch_env where
  "all_resolve =
     \<lparr>browser_set = False, upd_start = Resolves (), launch = Resolves (),
      newContext = Resolves (), newPage = Resolves (), goto = Resolves (),
      upd_navigated = Resolves (),
      perf_collab = perf_page, upd_perf = Resolves (),
      a11y_collab = a11y_page, upd_a11y = Resolves (),
      seo_collab = seo_page, upd_seo = Resolves (),
      sec_collab = sec_page, upd_sec = Resolves (),
      bp_collab = bp_page, upd_bp = Resolves (),
      complete_out = Resolves (), close_out = Resolves (), fail_out = Resolves ()\<rparr>"

definition seo_and_security :: tests_flags where
  "seo_and_security =
     \<lparr>performance = Some False, accessibility = Some False, seo = Some True,
      security = Some True, best_practices = Some False, other_values = []\<rparr>"

definition http_request :: scan_request where
  "http_request = \<lparr>url = ''http://example.com'', settings_tests = Some seo_and_security\<rparr>"

definition default_request :: scan_request where
  "default_request = \<lparr>url = ''http://example.com'', settings_tests = None\<rparr>"

text \<open>
  The tests objects \<^verbatim>\<open>{ seo: true, mobile: true }\<close> and \<^verbatim>\<open>{ performance: false,
  accessibility: false, seo: false, security: false, best_practices: false, mobile: true }\<close>:
  each carries one truthy property that names no module.
\<close>

definition seo_and_mobile :: tests_flags where
  "seo_and_mobile =
     \<lparr>performance = None, accessibility = None, seo = Some True,
      security = None, best_practices = None, other_values = [True]\<rparr>"

definition seo_mobile_request :: scan_request where
  "seo_mobile_request = \<lparr>url = ''http://example.com'', settings_tests = Some seo_and_mobile\<rparr>"

definition mobile_only :: tests_flags where
  "mobile_only =
     \<lparr>performance = Some False, accessibility = Some False, seo = Some False,
      security = Some False, best_practices = Some False, other_values = [True]\<rparr>"

definition mobile_only_request :: scan_request where
  "mobile_only_request = \<lparr>url = ''http://example.com'', settings_tests = Some mobile_only\<rparr>"

text \<open>The same page with a title of 61 characters and a single H1 element.\<close>

definition long_title_page :: seo_env where
  "long_title_page =
     seo_page\<lparr>seo_page_title := Resolves (replicate 61 (CHR ''a'')), seo_h1_count := Resolves 1\<rparr>"

text \<open>
  The SEO page with a store that returns no test row; with a title or a meta-description
  lookup that rejects; with a handler whose update rejects as well.
\<close>

definition seo_no_row :: seo_env where
  "seo_no_row = seo_page\<lparr>seo_test_insert := Resolves None\<rparr>"

definition seo_title_throws :: seo_env where
  "seo_title_throws = seo_page\<lparr>seo_page_title := Rejects ''Execution context was destroyed''\<rparr>"

definition seo_meta_throws :: seo_env where
  "seo_meta_throws = seo_page\<lparr>seo_meta_count := Rejects ''Target page, context or browser has been closed''\<rparr>"


section \<open>The score is the weighted deduction\<close>

lemma weight_or_0_spec: "weight_or_0 sev = spec_weight sev"
  by (simp add: weight_or_0_def weights_def)

lemma foldl_weights:
  "foldl (\<lambda>sum issue. sum + weight_or_0 (severity issue)) a xs
     = a + (\<Sum>i\<leftarrow>xs. spec_weight (severity i))"
  by (induction xs arbitrary: a) (simp_all add: weight_or_0_spec del: spec_weight.simps)

lemma score_formula: "calculateOverallScore xs = max 0 (100 - (\<Sum>i\<leftarrow>xs. spec_weight (severity i)))"
  by (simp add: calculateOverallScore_def foldl_weights del: spec_weight.simps)

section \<open>What the statements of a scanner leave unchanged\<close>

lemma scan_updates_append [simp]: "scan_updates (xs @ ys) = scan_updates xs @ scan_updates ys"
  by (simp add: scan_updates_def)

lemma scan_updates_Nil [simp]: "scan_updates [] = []"
  by (simp add: scan_updates_def)

lemma scan_updates_Cons [simp]:
  "scan_updates (r # rs) = (if is_scan_update r then r # scan_updates rs else scan_updates rs)"
  by (simp add: scan_updates_def)

lemma stableD: "stable obs f \<Longrightarrow> obs (snd (f s)) = obs s"
  by (simp add: stable_def)

lemma stable_skip: "stable obs skip"
  by (simp add: stable_def skip_def)

lemma stable_throw: "stable obs (throw e)"
  by (simp add: stable_def throw_def)

lemma stable_and_then:
  assumes "stable obs f" and "stable obs g"
  shows "stable obs (and_then f g)"
  unfolding stable_def
proof
  fix s
  obtain x s' where fs: "f s = (x, s')" by (cases "f s")
  have 1: "obs s' = obs s"
    using stableD [OF assms(1), of s] fs by simp
  have 2: "obs (snd (g s')) = obs s'"
    using assms(2) by (rule stableD)
  show "obs (snd (and_then f g s)) = obs s"
    using fs 1 2 by (cases x) (simp_all add: and_then_def)
qed

lemma and_then_stable_snd:
  assumes "stable obs g"
  shows "obs (snd (and_then f g s)) = obs (snd (f s))"
proof -
  obtain x s' where fs: "f s = (x, s')" by (cases "f s")
  show ?thesis
    using fs stableD [OF assms, of s'] by (cases x) (simp_all add: and_then_def)
qed

lemma stable_if: "stable obs f \<Longrightarrow> stable obs g \<Longrightarrow> stable obs (if b then f else g)"
  by simp

lemma stable_sent_await_store: "\<not> P r \<Longrightarrow> stable (sent_where P) (await_store r out)"
  by (cases out) (simp_all add: stable_def sent_where_def await_store_def Let_def)

lemma stable_sent_push_issue: "stable (sent_where P) (push_issue sev)"
  by (simp add: stable_def sent_where_def push_issue_def)

lemma stable_sent_createIssue:
  "\<not> P (InsertIssue tid title sev c) \<Longrightarrow> stable (sent_where P) (createIssue c tid title sev out)"
  by (simp add: createIssue_def stable_and_then stable_sent_await_store stable_sent_push_issue)

lemma stable_sent_complete_test:
  "(\<And>score. \<not> P (UpdateTest tid ''completed'' score)) \<Longrightarrow>
   stable (sent_where P) (complete_test tid k out)"
  unfolding stable_def complete_test_def
  by (cases out) (simp_all add: await_store_def sent_where_def Let_def)

lemma stable_sent_create_test:
  "\<not> P (InsertTest n c) \<Longrightarrow> (\<And>tid. stable (sent_where P) (body tid)) \<Longrightarrow>
   stable (sent_where P) (create_test n c f out body)"
  unfolding stable_def create_test_def
  by (auto simp: Let_def sent_where_def split: outcome.splits option.splits)

lemma stable_id_await_store: "stable testId (await_store r out)"
  by (cases out) (simp_all add: stable_def await_store_def Let_def)

lemma stable_id_push_issue: "stable testId (push_issue sev)"
  by (simp add: stable_def push_issue_def)

lemma stable_id_createIssue: "stable testId (createIssue c tid title sev out)"
  by (simp add: createIssue_def stable_and_then stable_id_await_store stable_id_push_issue)

lemma stable_id_complete_test: "stable testId (complete_test tid k out)"
  unfolding stable_def complete_test_def
  by (cases out) (simp_all add: await_store_def Let_def)

lemmas stable_intros = stable_skip stable_throw stable_and_then stable_if
  stable_sent_await_store stable_sent_push_issue stable_sent_createIssue
  stable_sent_complete_test stable_sent_create_test
  stable_id_await_store stable_id_push_issue stable_id_createIssue stable_id_complete_test

text \<open>The two loops of the accessibility scanner, for any observation.\<close>

lemma stable_a11y_nodes:
  assumes "\<And>out. stable obs (createIssue ''accessibility'' tid t sev out)"
  shows "stable obs (a11y_nodes env tid t sev ns)"
  unfolding stable_def
proof (induction ns)
  case Nil
  then show ?case by simp
next
  case (Cons n ns)
  show ?case
  proof
    fix s
    have q: "obs (snd (createIssue ''accessibility'' tid t sev (a11y_issue env (length (issues s))) s)) = obs s"
      using assms by (rule stableD)
    show "obs (snd (a11y_nodes env tid t sev (n # ns) s)) = obs s"
      using Cons.IH q by (auto split: prod.splits option.splits)
  qed
qed

lemma stable_a11y_violations:
  assumes "\<And>out t sev. stable obs (createIssue ''accessibility'' tid t sev out)"
  shows "stable obs (a11y_violations env tid vs)"
  unfolding stable_def
proof (induction vs)
  case Nil
  then show ?case by simp
next
  case (Cons v vs)
  show ?case
  proof
    fix s
    have q: "obs (snd (a11y_nodes env tid (help_text v) (mapImpact (impact v)) (nodes v) s)) = obs s"
      using stable_a11y_nodes [of obs tid, OF assms] by (rule stableD)
    show "obs (snd (a11y_violations env tid (v # vs) s)) = obs s"
      using Cons.IH q by (auto split: prod.splits option.splits)
  qed
qed

lemma stable_a11y_checks:
  assumes "\<And>out t sev. stable obs (createIssue ''accessibility'' tid t sev out)"
  shows "stable obs (a11y_checks env tid)"
  using stable_a11y_violations [of obs tid, OF assms]
  by (simp add: a11y_checks_def stable_throw split: outcome.splits)

text \<open>No scanner sends an update of the scan row.\<close>

lemma quiet_seo: "stable (sent_where is_scan_update) (SEOScanner_try env)"
  unfolding SEOScanner_try_def seo_check_title_def seo_check_meta_def seo_check_h1_def
  by (intro stable_intros | simp split: outcome.splits add: stable_intros)+

lemma quiet_sec: "stable (sent_where is_scan_update) (SecurityScanner_try env u)"
  unfolding SecurityScanner_try_def sec_checks_def Let_def
  by (intro stable_intros | simp split: outcome.splits add: stable_intros)+

lemma quiet_bp: "stable (sent_where is_scan_update) (BestPracticesScanner_try env)"
  unfolding BestPracticesScanner_try_def bp_checks_def
  by (intro stable_intros | simp split: outcome.splits add: stable_intros)+

lemma quiet_perf: "stable (sent_where is_scan_update) (PerformanceScanner_try env)"
  unfolding PerformanceScanner_try_def perf_checks_def perf_check_audit_def Let_def
  by (intro stable_intros | simp split: outcome.splits option.splits add: stable_intros)+

lemma quiet_a11y: "stable (sent_where is_scan_update) (AccessibilityScanner_try env)"
  unfolding AccessibilityScanner_try_def
  by (intro stable_intros stable_a11y_checks | simp)+

lemma catch_block_filter:
  "(\<And>tid. \<not> P (UpdateTest tid ''failed'' None)) \<Longrightarrow>
   filter P (requests (catch_block out r)) = sent_where P (snd r)"
  by (cases r) (auto simp: catch_block_def sent_where_def split: option.splits outcome.splits)

lemma scanner_requests_quiet:
  "scan_updates (requests (SEOScanner_scan e1)) = []"
  "scan_updates (requests (SecurityScanner_scan e2 u)) = []"
  "scan_updates (requests (BestPracticesScanner_scan e3)) = []"
  "scan_updates (requests (PerformanceScanner_scan e4)) = []"
  "scan_updates (requests (AccessibilityScanner_scan e5)) = []"
  using stableD [OF quiet_seo, of e1 init_mstate] stableD [OF quiet_sec, of e2 u init_mstate]
    stableD [OF quiet_bp, of e3 init_mstate] stableD [OF quiet_perf, of e4 init_mstate]
    stableD [OF quiet_a11y, of e5 init_mstate]
  by (simp_all add: SEOScanner_scan_def SecurityScanner_scan_def BestPracticesScanner_scan_def
        PerformanceScanner_scan_def AccessibilityScanner_scan_def catch_block_filter
        scan_updates_def sent_where_def init_mstate_def)

section \<open>The updates of the scan row\<close>

text \<open>
  Whatever the collaborators do, the updates that one \<^verbatim>\<open>performCompleteScan\<close> call
  sends for the scan row are an initial part of \<open>expected_updates\<close>, followed by at most
  one update to the failed status.
\<close>

lemma upt_extend: "a \<le> b \<Longrightarrow> b \<le> c \<Longrightarrow> [Suc a..<Suc b] @ [Suc b..<Suc c] = [Suc a..<Suc c]"
  by (metis Suc_le_mono upt_add_eq_append le_iff_add)

lemma run_scanner_shape:
  assumes "run_scanner en r n out s = (x, s')" and "scan_updates (requests r) = []"
  shows "scan_updates (written s') =
           scan_updates (written s) @ map (progress_update n) [Suc (completed s)..<Suc (completed s')]
         \<and> completed s \<le> completed s'
         \<and> completed s' \<le> completed s + (if en then 1 else 0)
         \<and> (x = None \<longrightarrow> completed s' = completed s + (if en then 1 else 0)
                       \<and> allIssues s' = allIssues s @ (if en then returned r else []))"
  using assms
  by (cases out)
     (auto simp: run_scanner_def Let_def updateScanStatus_def await_scan_update_def returned_def
        progress_update_def split: if_splits outcome.splits)

lemma run_list_shape:
  assumes "run_list items n s = (x, s')"
    and "\<forall>(en, r, out) \<in> set items. scan_updates (requests r) = []"
  shows "scan_updates (written s') =
           scan_updates (written s) @ map (progress_update n) [Suc (completed s)..<Suc (completed s')]
         \<and> completed s \<le> completed s'
         \<and> completed s' \<le> completed s + length (filter fst items)
         \<and> (x = None \<longrightarrow> completed s' = completed s + length (filter fst items)
                       \<and> allIssues s' = allIssues s @ concat (map (\<lambda>(en, r, out). returned r) (filter fst items)))"
  using assms
proof (induction items arbitrary: s)
  case Nil
  then show ?case by simp
next
  case (Cons item items)
  obtain en r out where item: "item = (en, r, out)" by (cases item)
  obtain y s1 where step: "run_scanner en r n out s = (y, s1)" by (cases "run_scanner en r n out s")
  have q: "scan_updates (requests r) = []" using Cons.prems(2) item by simp
  note h = run_scanner_shape [OF step q]
  show ?case
  proof (cases y)
    case (Some e)
    then have "x = Some e" "s' = s1" using Cons.prems(1) item step by simp_all
    then show ?thesis using h item by auto
  next
    case None
    then have rest: "run_list items n s1 = (x, s')" using Cons.prems(1) item step by simp
    have qs: "\<forall>(en, r, out) \<in> set items. scan_updates (requests r) = []"
      using Cons.prems(2) by simp
    note ih = Cons.IH [OF rest qs]
    have le1: "completed s \<le> completed s1" and le2: "completed s1 \<le> completed s'"
      using h ih by simp_all
    have "scan_updates (written s') =
            scan_updates (written s) @ map (progress_update n)
              ([Suc (completed s)..<Suc (completed s1)] @ [Suc (completed s1)..<Suc (completed s')])"
      using h ih by simp
    then have A: "scan_updates (written s') =
            scan_updates (written s) @ map (progress_update n) [Suc (completed s)..<Suc (completed s')]"
      by (simp only: upt_extend [OF le1 le2])
    have B: "completed s' \<le> completed s + length (filter fst (item # items))"
      using h ih item by (auto split: if_splits)
    have C: "x = None \<longrightarrow> completed s' = completed s + length (filter fst (item # items))
                       \<and> allIssues s' = allIssues s @ concat (map (\<lambda>(en, r, out). returned r) (filter fst (item # items)))"
      using h ih item None by (auto split: if_splits)
    show ?thesis using A B C le1 le2 by simp
  qed
qed

lemma run_scanners_eq:
  "run_scanners env req s =
     (case run_list (scanner_runs env req) (count_truthy (testsToRun req)) s of
        (None, s') \<Rightarrow>
          and_then (completeScan (make_summary (allIssues s') (count_truthy (testsToRun req))) (complete_out env))
                   (await_ext (close_out env)) s'
      | (Some e, s') \<Rightarrow> (Some e, s'))"
  by (simp add: run_scanners_def scanner_runs_def Let_def and_then_def
        split: prod.splits option.splits)

lemma count_runs: "length (filter fst (scanner_runs env req)) = length (enabled_modules req)"
  by (simp add: scanner_runs_def enabled_modules_def Let_def)

lemma truthy_values:
  "length (filter (\<lambda>v. v) (case v of None \<Rightarrow> [] | Some b \<Rightarrow> [b])) = (if truthy v then 1 else 0)"
  by (cases v) (simp_all add: truthy_def)

lemma count_truthy_split:
  "count_truthy (testsToRun req) = length (enabled_modules req) + extra_truthy req"
  by (simp add: count_truthy_def object_values_def enabled_modules_def extra_truthy_def Let_def
        truthy_values)

lemma enabled_le_total: "length (enabled_modules req) \<le> count_truthy (testsToRun req)"
  by (simp add: count_truthy_split)

lemma runs_quiet: "\<forall>(en, r, out) \<in> set (scanner_runs env req). scan_updates (requests r) = []"
  by (simp add: scanner_runs_def Let_def scanner_requests_quiet)

lemma setup_shape:
  assumes "scan_setup env init_ostate = (x, s)"
  shows "allIssues s = [] \<and> completed s = 0
         \<and> (x = None \<longrightarrow> written s = take 2 (expected_updates T n summ))
         \<and> (x \<noteq> None \<longrightarrow> written s = take 1 (expected_updates T n summ)
                           \<or> written s = take 2 (expected_updates T n summ))"
  using assms
  unfolding scan_setup_def and_then_def updateScanStatus_def await_scan_update_def await_ext_def
    skip_def init_ostate_def Let_def expected_updates_def
  by (auto split: outcome.splits if_splits)

lemma take_upt_Suc: "k \<le> n \<Longrightarrow> take k [Suc 0..<Suc n] = [Suc 0..<Suc k]"
  using take_upt [of "Suc 0" k "Suc n"] by simp

lemma take_expected:
  "k \<le> n \<Longrightarrow> take (2 + k) (expected_updates T n summ) =
     take 2 (expected_updates T n summ) @ map (progress_update T) [Suc 0..<Suc k]"
  by (simp add: expected_updates_def take_map take_upt_Suc del: upt_Suc)

lemma take_expected_all:
  "expected_updates T n summ =
     take 2 (expected_updates T n summ) @ map (progress_update T) [Suc 0..<Suc n]
       @ [UpdateScan ''completed'' (Some (Finite 100)) (Some (Summary summ))]"
  by (simp add: expected_updates_def del: upt_Suc)

lemma log_shape:
  fixes env req
  defines "T \<equiv> count_truthy (testsToRun req)"
  defines "n \<equiv> length (enabled_modules req)"
  defines "summ \<equiv> make_summary (collected_issues env req) T"
  shows "\<exists>m tail. scan_updates (store_log (performCompleteScan env req))
                     = take m (expected_updates T n summ) @ tail
                 \<and> (tail = [] \<or> (\<exists>e. tail = [fail_update e]))"
proof -
  obtain x0 s0 where s0: "scan_setup env init_ostate = (x0, s0)"
    by (cases "scan_setup env init_ostate")
  note h0 = setup_shape [OF s0, of T n summ]
  show ?thesis
  proof (cases x0)
    case (Some e)
    then have "store_log (performCompleteScan env req) = written s0 @ [fail_update e]"
      using s0
      by (cases "fail_out env")
         (simp_all add: performCompleteScan_def orchestrator_try_def and_then_def failScan_def
            await_scan_update_def Let_def fail_update_def)
    moreover have "scan_updates (take 1 (expected_updates T n summ)) = take 1 (expected_updates T n summ)"
      "scan_updates (take 2 (expected_updates T n summ)) = take 2 (expected_updates T n summ)"
      by (simp_all add: expected_updates_def)
    ultimately have "scan_updates (store_log (performCompleteScan env req))
                        = take 1 (expected_updates T n summ) @ [fail_update e]
                     \<or> scan_updates (store_log (performCompleteScan env req))
                        = take 2 (expected_updates T n summ) @ [fail_update e]"
      using h0 Some by (auto simp: fail_update_def)
    then show ?thesis by blast
  next
    case None
    obtain x1 s1 where s1: "run_list (scanner_runs env req) T s0 = (x1, s1)"
      by (cases "run_list (scanner_runs env req) T s0")
    note h1 = run_list_shape [OF s1 runs_quiet]
    have w0: "scan_updates (written s0) = take 2 (expected_updates T n summ)"
      using h0 None by (simp add: expected_updates_def)
    have kn: "completed s1 \<le> n" using h1 h0 by (simp add: count_runs n_def)
    have w1: "scan_updates (written s1) = take (2 + completed s1) (expected_updates T n summ)"
      using h1 h0 w0 by (simp only: take_expected [OF kn])
    show ?thesis
    proof (cases x1)
      case (Some e)
      then have "store_log (performCompleteScan env req) = written s1 @ [fail_update e]"
        using s0 s1 None
        by (cases "fail_out env")
           (simp_all add: performCompleteScan_def orchestrator_try_def and_then_def failScan_def
              await_scan_update_def Let_def fail_update_def run_scanners_eq T_def n_def)
      then have "scan_updates (store_log (performCompleteScan env req))
                   = take (2 + completed s1) (expected_updates T n summ) @ [fail_update e]"
        using w1 by (simp add: fail_update_def)
      then show ?thesis by blast
    next
      case N1: None
      have k: "completed s1 = n" and iss: "allIssues s1 = collected_issues env req"
        using h1 h0 N1 by (simp_all add: count_runs n_def collected_issues_def)
      have w1': "scan_updates (written s1) = take 2 (expected_updates T n summ) @ map (progress_update T) [Suc 0..<Suc n]"
        using w1 k take_expected [of n n T summ] by simp
      let ?c = "UpdateScan ''completed'' (Some (Finite 100)) (Some (Summary summ))"
      have full: "scan_updates (written s1 @ [?c]) = take (n + 3) (expected_updates T n summ)"
        using w1' take_expected_all [of T n summ] by (simp add: expected_updates_def)
      have "store_log (performCompleteScan env req) = written s1 @ [?c]
            \<or> (\<exists>e. store_log (performCompleteScan env req) = written s1 @ [?c] @ [fail_update e])"
        using s0 s1 None N1 iss k
        by (cases "fail_out env"; cases "complete_out env"; cases "close_out env")
           (simp_all add: performCompleteScan_def orchestrator_try_def and_then_def failScan_def
              await_scan_update_def Let_def fail_update_def run_scanners_eq T_def n_def completeScan_def
              await_ext_def summ_def)
      then show ?thesis
      proof
        assume "store_log (performCompleteScan env req) = written s1 @ [?c]"
        then have "scan_updates (store_log (performCompleteScan env req))
                     = take (n + 3) (expected_updates T n summ) @ []"
          using full by simp
        then show ?thesis by blast
      next
        assume "\<exists>e. store_log (performCompleteScan env req) = written s1 @ [?c] @ [fail_update e]"
        then obtain e where "store_log (performCompleteScan env req) = (written s1 @ [?c]) @ [fail_update e]"
          by auto
        then have "scan_updates (store_log (performCompleteScan env req))
                     = take (n + 3) (expected_updates T n summ) @ [fail_update e]"
          using full by (simp add: fail_update_def)
        then show ?thesis by blast
      qed
    qed
  qed
qed

lemma completed_update_in_log:
  assumes "UpdateScan ''completed'' p sm \<in> set (store_log (performCompleteScan env req))"
  shows "p = Some (Finite 100) \<and>
         sm = Some (Summary (make_summary (collected_issues env req) (count_truthy (testsToRun req))))"
proof -
  let ?T = "count_truthy (testsToRun req)"
  let ?E = "expected_updates ?T (length (enabled_modules req)) (make_summary (collected_issues env req) ?T)"
  let ?u = "UpdateScan ''completed'' p sm"
  obtain m tail where sh: "scan_updates (store_log (performCompleteScan env req)) = take m ?E @ tail"
    and tl: "tail = [] \<or> (\<exists>e. tail = [fail_update e])"
    using log_shape [of env req] by blast
  have "?u \<in> set (scan_updates (store_log (performCompleteScan env req)))"
    using assms by (simp add: scan_updates_def)
  then have "?u \<in> set (take m ?E) \<or> ?u \<in> set tail" using sh by simp
  moreover have "?u \<notin> set tail" using tl by (auto simp: fail_update_def)
  ultimately have "?u \<in> set ?E" by (meson in_set_takeD)
  then show ?thesis
    by (auto simp: expected_updates_def progress_update_def)
qed

section \<open>The progress written to the scan row\<close>

lemma progress_writes_append [simp]:
  "progress_writes (xs @ ys) = progress_writes xs @ progress_writes ys"
  by (induction xs rule: progress_writes.induct) simp_all

lemma progress_writes_scan_updates: "progress_writes (scan_updates rs) = progress_writes rs"
  by (induction rs rule: progress_writes.induct) simp_all

lemma progress_writes_take:
  "\<forall>r \<in> set xs. \<exists>st q sm. r = UpdateScan st (Some q) sm \<Longrightarrow>
   progress_writes (take m xs) = take m (progress_writes xs)"
proof (induction xs arbitrary: m)
  case Nil
  then show ?case by simp
next
  case (Cons x xs)
  then obtain st q sm where x: "x = UpdateScan st (Some q) sm" by auto
  show ?case
    using Cons x by (cases m) simp_all
qed

lemma progress_writes_band:
  assumes "n \<le> T"
  shows "progress_writes (map (progress_update T) [Suc 0..<Suc n])
     = map Finite (map (\<lambda>k. 10 + (of_nat k / of_nat T) * 80) [Suc 0..<Suc n])"
proof -
  have "progress_writes (map (progress_update T) ks) = map (\<lambda>k. module_progress k T) ks" for ks
    by (induction ks) (simp_all add: progress_update_def)
  moreover have "map (\<lambda>k. module_progress k T) [Suc 0..<Suc n]
                   = map (\<lambda>k. Finite (10 + (of_nat k / of_nat T) * 80)) [Suc 0..<Suc n]"
    using assms by (intro map_cong) (auto simp: module_progress_def js_div_def)
  ultimately show ?thesis by (simp del: upt_Suc)
qed

lemma progress_writes_expected:
  "n \<le> T \<Longrightarrow> progress_writes (expected_updates T n summ) = map Finite (progress_sequence T n)"
  by (simp add: expected_updates_def progress_sequence_def progress_writes_band del: upt_Suc)

lemma expected_updates_full:
  "\<forall>r \<in> set (expected_updates T n summ). \<exists>st q sm. r = UpdateScan st (Some q) sm"
  by (auto simp: expected_updates_def progress_update_def)

lemma writes_shape:
  "\<exists>m. progress_writes (store_log (performCompleteScan env req))
         = map Finite (take m (progress_sequence (count_truthy (testsToRun req))
                                 (length (enabled_modules req))))"
proof -
  let ?T = "count_truthy (testsToRun req)"
  let ?n = "length (enabled_modules req)"
  let ?E = "expected_updates ?T ?n (make_summary (collected_issues env req) ?T)"
  obtain m tail where sh: "scan_updates (store_log (performCompleteScan env req)) = take m ?E @ tail"
    and tl: "tail = [] \<or> (\<exists>e. tail = [fail_update e])"
    using log_shape [of env req] by blast
  have "progress_writes tail = []" using tl by (auto simp: fail_update_def)
  then have "progress_writes (store_log (performCompleteScan env req)) = progress_writes (take m ?E)"
    using sh progress_writes_scan_updates [of "store_log (performCompleteScan env req)"] by simp
  also have "\<dots> = take m (progress_writes ?E)"
    by (rule progress_writes_take [OF expected_updates_full])
  also have "\<dots> = map Finite (take m (progress_sequence ?T ?n))"
    by (simp add: progress_writes_expected [OF enabled_le_total] take_map)
  finally show ?thesis by blast
qed

lemma sorted_progress_sequence:
  assumes nT: "n \<le> T"
  shows "sorted (progress_sequence T n)"
proof -
  let ?f = "\<lambda>k::nat. 10 + (of_nat k / of_nat T) * (80::rat)"
  have mono: "?f i \<le> ?f j" if "i \<le> j" for i j
    using that by (simp add: divide_right_mono)
  have "sorted_wrt (\<lambda>x y. ?f x \<le> ?f y) [Suc 0..<Suc n]"
  proof (rule sorted_wrt_mono_rel [of _ "(\<le>)"])
    show "sorted [Suc 0..<Suc n]" by (rule sorted_upt)
  qed (rule mono)
  then have mid: "sorted (map ?f [Suc 0..<Suc n])"
    by (simp only: sorted_map)
  have lo: "5 \<le> ?f k" for k by (simp add: add_increasing2)
  have hi: "?f k \<le> 100" if "k \<in> set [Suc 0..<Suc n]" for k
  proof -
    have "k \<le> T" using that nT by (auto simp del: upt_Suc)
    then have q: "of_nat k / (of_nat T :: rat) \<le> 1"
      by (cases "T = 0") (simp_all add: divide_le_eq_1)
    have lin: "10 + x * 80 \<le> (100::rat)" if "x \<le> 1" for x
      using that by linarith
    show ?thesis by (rule lin [OF q])
  qed
  have tail: "sorted (map ?f [Suc 0..<Suc n] @ [100])"
    using mid hi by (simp only: sorted_append) auto
  have "\<forall>x \<in> set (map ?f [Suc 0..<Suc n] @ [100]). 5 \<le> x"
    using lo by (auto simp del: upt_Suc)
  then have "sorted (0 # 5 # (map ?f [Suc 0..<Suc n] @ [100]))"
    using tail by (simp only: sorted_simps) auto
  then show ?thesis
    by (simp add: progress_sequence_def del: upt_Suc)
qed


lemma foldl_apply_filter:
  "foldl apply_request row (filter is_scan_update rs) = foldl apply_request row rs"
  by (induction rs arbitrary: row rule: progress_writes.induct) simp_all

lemma row_after_scan_updates: "row_after (scan_updates rs) = row_after rs"
  by (simp add: row_after_def scan_updates_def foldl_apply_filter)

lemma row_after_snoc: "row_after (xs @ [r]) = apply_request (row_after xs) r"
  by (simp add: row_after_def)

lemma subseq_single: "subseq xs [x] \<Longrightarrow> xs = [] \<or> xs = [x]"
  using list_emb.cases by fastforce

lemma subseq_set_mono: "subseq xs ys \<Longrightarrow> set xs \<subseteq> set ys"
  by (metis set_nths_subset subseq_conv_nths)

lemma progress_writes_Cons:
  "(\<exists>st p sm. y = UpdateScan st (Some p) sm \<and> progress_writes (y # ys) = p # progress_writes ys)
   \<or> progress_writes (y # ys) = progress_writes ys"
proof (cases y)
  case (UpdateScan st po sm)
  then show ?thesis by (cases po) simp_all
qed simp_all

lemma subseq_progress_writes:
  "subseq A X \<Longrightarrow> progress_writes X = map Finite qs \<Longrightarrow>
   \<exists>ps. progress_writes A = map Finite ps \<and> subseq ps qs"
proof (induction A X arbitrary: qs rule: list_emb.induct)
  case (list_emb_Nil ys)
  then show ?case by simp
next
  case (list_emb_Cons xs ys y)
  from progress_writes_Cons [of y ys] show ?case
  proof
    assume "\<exists>st p sm. y = UpdateScan st (Some p) sm \<and> progress_writes (y # ys) = p # progress_writes ys"
    then obtain p where y: "progress_writes (y # ys) = p # progress_writes ys" by blast
    then obtain q qs' where qs: "qs = q # qs'" "progress_writes ys = map Finite qs'"
      using list_emb_Cons.prems by (cases qs) auto
    from list_emb_Cons.IH [OF qs(2)] obtain ps where
      "progress_writes xs = map Finite ps" "subseq ps qs'" by blast
    then show ?thesis using qs(1) by auto
  next
    assume "progress_writes (y # ys) = progress_writes ys"
    then show ?thesis using list_emb_Cons by simp
  qed
next
  case (list_emb_Cons2 x y xs ys)
  from progress_writes_Cons [of y ys] show ?case
  proof
    assume "\<exists>st p sm. y = UpdateScan st (Some p) sm \<and> progress_writes (y # ys) = p # progress_writes ys"
    then obtain st p sm where y: "y = UpdateScan st (Some p) sm"
      "progress_writes (y # ys) = p # progress_writes ys" by blast
    then obtain q qs' where qs: "qs = q # qs'" "p = Finite q" "progress_writes ys = map Finite qs'"
      using list_emb_Cons2.prems by (cases qs) auto
    from list_emb_Cons2.IH [OF qs(3)] obtain ps where
      "progress_writes xs = map Finite ps" "subseq ps qs'" by blast
    then have "progress_writes (x # xs) = map Finite (q # ps) \<and> subseq (q # ps) qs"
      using y qs list_emb_Cons2.hyps(1) by simp
    then show ?thesis by blast
  next
    assume a: "progress_writes (y # ys) = progress_writes ys"
    then have "progress_writes (x # xs) = progress_writes xs"
      using list_emb_Cons2.hyps(1) progress_writes_Cons [of y xs]
      by (cases y rule: is_scan_update.cases) (auto split: option.splits)
    then show ?thesis using a list_emb_Cons2 by simp
  qed
qed

lemma subseq_sorted: "subseq ps qs \<Longrightarrow> sorted qs \<Longrightarrow> sorted (ps :: rat list)"
  by (auto simp: subseq_conv_nths sorted_nths)

lemma log_full_shape:
  "\<exists>tail. subseq (scan_updates (store_log (performCompleteScan env req)))
            (expected_updates (count_truthy (testsToRun req)) (length (enabled_modules req))
               (make_summary (collected_issues env req) (count_truthy (testsToRun req))) @ tail)
        \<and> (tail = [] \<or> (\<exists>e. tail = [fail_update e]))"
proof -
  let ?T = "count_truthy (testsToRun req)"
  let ?n = "length (enabled_modules req)"
  let ?E = "expected_updates ?T ?n (make_summary (collected_issues env req) ?T)"
  obtain m tail where sh: "scan_updates (store_log (performCompleteScan env req)) = take m ?E @ tail"
    and tl: "tail = [] \<or> (\<exists>e. tail = [fail_update e])"
    using log_shape [of env req] by blast
  have "subseq (take m ?E) ?E"
    by (metis append_take_drop_id subseq_rev_drop_many subseq_order.order_refl)
  then have "subseq (take m ?E @ tail) (?E @ tail)" by simp
  then have "subseq (scan_updates (store_log (performCompleteScan env req))) (?E @ tail)
             \<and> (tail = [] \<or> (\<exists>e. tail = [fail_update e]))"
    using sh tl by simp
  then show ?thesis by blast
qed

lemma row_progress_running:
  assumes "\<forall>r \<in> set A. \<exists>st q sm. r = UpdateScan st (Some (Finite q)) sm \<and> q \<noteq> 100"
  shows "row_progress (row_after A) \<noteq> Finite 100"
  using assms
proof (induction A rule: rev_induct)
  case Nil
  then show ?case by (simp add: row_after_def queued_row_def)
next
  case (snoc r A)
  then obtain st q sm where "r = UpdateScan st (Some (Finite q)) sm" "q \<noteq> 100" by auto
  then show ?case by (simp add: row_after_snoc)
qed

lemma running_updates_below_100:
  assumes "r \<in> set (butlast (expected_updates T n summ))" and "n \<le> T"
  shows "\<exists>st q sm. r = UpdateScan st (Some (Finite q)) sm \<and> q \<noteq> 100"
proof -
  from assms(1) consider "r = UpdateScan ''running'' (Some (Finite 0)) None"
    | "r = UpdateScan ''running'' (Some (Finite 5)) None"
    | k where "Suc 0 \<le> k" "k \<le> n" "r = progress_update T k"
    by (auto simp: expected_updates_def butlast_append simp del: upt_Suc)
  then show ?thesis
  proof cases
    case 3
    have kT: "k \<le> T" and T0: "T \<noteq> 0" using 3 assms(2) by simp_all
    then have q: "of_nat k / (of_nat T :: rat) \<le> 1"
      by (simp add: divide_le_eq_1)
    have lin: "10 + x * 80 \<noteq> (100::rat)" if "x \<le> 1" for x
      using that by linarith
    show ?thesis
      using 3 T0 lin [OF q] by (simp add: progress_update_def module_progress_def js_div_def)
  qed simp_all
qed

lemma row_after_append: "row_after (xs @ ys) = foldl apply_request (row_after xs) ys"
  by (simp add: row_after_def)

lemma row_of_applied:
  assumes "subseq A (expected_updates T n summ @ tail)"
    and "tail = [] \<or> tail = [fail_update e]"
    and "row_progress (row_after A) = Finite 100"
    and "n \<le> T"
  shows "row_status (row_after A) = ''completed'' \<or> row_status (row_after A) = ''failed''"
proof -
  let ?c = "UpdateScan ''completed'' (Some (Finite 100)) (Some (Summary summ))"
  have E: "expected_updates T n summ = butlast (expected_updates T n summ) @ [?c]"
    by (simp add: expected_updates_def butlast_append)
  from assms(1) obtain A12 A3 where A: "A = A12 @ A3"
    and s12: "subseq A12 (expected_updates T n summ)" and s3: "subseq A3 tail"
    by (rule subseq_appendE)
  from s12 E obtain A1 A2 where A12: "A12 = A1 @ A2"
    and s1: "subseq A1 (butlast (expected_updates T n summ))" and s2: "subseq A2 [?c]"
    by (metis subseq_appendE)
  have a3: "A3 = [] \<or> A3 = [fail_update e]"
    using s3 assms(2) by (auto dest: subseq_single)
  have a2: "A2 = [] \<or> A2 = [?c]"
    using s2 by (rule subseq_single)
  have "set A1 \<subseteq> set (butlast (expected_updates T n summ))"
    using s1 by (rule subseq_set_mono)
  then have low: "row_progress (row_after A1) \<noteq> Finite 100"
    using running_updates_below_100 [OF _ assms(4)] by (intro row_progress_running) blast
  show ?thesis
  proof (cases "A2 = []")
    case True
    then have "row_progress (row_after A) = row_progress (row_after A1)"
      using A A12 a3 by (auto simp: row_after_snoc fail_update_def)
    then show ?thesis using low assms(3) by simp
  next
    case False
    then have "A = A1 @ [?c] \<or> A = (A1 @ [?c]) @ [fail_update e]"
      using A A12 a2 a3 by auto
    then show ?thesis
      by (auto simp: row_after_append fail_update_def)
  qed
qed

section \<open>The issues of the SEO and the Security scanner\<close>

lemma issues_titled_scan:
  "issues_titled T (requests (catch_block out r))
     = map issue_severity (sent_where (is_issue_titled T) (snd r))"
  by (simp add: issues_titled_def catch_block_filter)

lemma seo_meta_not_title:
  "T = ''Missing Title Tag'' \<or> T = ''Title Tag Too Long'' \<or> T = ''Missing H1 Tag'' \<or> T = ''Multiple H1 Tags''
   \<Longrightarrow> stable (sent_where (is_issue_titled T)) (seo_check_meta env tid)"
  unfolding seo_check_meta_def
  by (intro stable_intros | auto split: outcome.splits intro!: stable_intros)+

lemma seo_h1_not_title:
  "T = ''Missing Title Tag'' \<or> T = ''Title Tag Too Long''
   \<Longrightarrow> stable (sent_where (is_issue_titled T)) (seo_check_h1 env tid)"
  unfolding seo_check_h1_def
  by (intro stable_intros | auto split: outcome.splits intro!: stable_intros)+

lemma seo_title_not_h1:
  "T = ''Missing H1 Tag'' \<or> T = ''Multiple H1 Tags''
   \<Longrightarrow> stable (sent_where (is_issue_titled T)) (seo_check_title env tid)"
  unfolding seo_check_title_def
  by (intro stable_intros | auto split: outcome.splits intro!: stable_intros)+

lemma seo_h1_single:
  "seo_h1_count env = Resolves 1 \<Longrightarrow> stable obs (seo_check_h1 env tid)"
  by (simp add: seo_check_h1_def stable_skip)

lemma seo_complete_silent: "stable (sent_where (is_issue_titled T)) (complete_test tid k out)"
  by (intro stable_intros) simp

lemma createIssue_sent:
  "sent (snd (createIssue c tid title sev out s)) = sent s @ [InsertIssue tid title sev c]"
  by (cases out) (simp_all add: createIssue_def and_then_def await_store_def push_issue_def Let_def)

lemma seo_title_issues:
  assumes "seo_test_insert env = Resolves (Some tid)" and "seo_page_title env = Resolves title"
    and "T = ''Missing Title Tag'' \<or> T = ''Title Tag Too Long''"
  shows "issues_titled T (requests (SEOScanner_scan env))
         = issues_titled T
             (sent (snd (seo_check_title env tid
                \<lparr>issues = [], testId = Some tid, sent = [InsertTest ''SEO Audit'' ''seo'']\<rparr>)))"
proof -
  let ?obs = "sent_where (is_issue_titled T)"
  have rest: "stable ?obs (and_then (seo_check_meta env tid)
                 (and_then (seo_check_h1 env tid) (complete_test tid 10 (seo_complete env))))"
    using assms(3) by (intro stable_and_then seo_meta_not_title seo_h1_not_title seo_complete_silent) auto
  let ?s0 = "\<lparr>issues = [], testId = Some tid, sent = [InsertTest ''SEO Audit'' ''seo'']\<rparr>"
  have 1: "issues_titled T (requests (SEOScanner_scan env))
             = map issue_severity (?obs (snd (SEOScanner_try env init_mstate)))"
    by (simp add: SEOScanner_scan_def issues_titled_scan)
  have 2: "SEOScanner_try env init_mstate
             = and_then (seo_check_title env tid)
                 (and_then (seo_check_meta env tid)
                    (and_then (seo_check_h1 env tid) (complete_test tid 10 (seo_complete env)))) ?s0"
    using assms(1) by (simp add: SEOScanner_try_def create_test_def init_mstate_def Let_def)
  show ?thesis
    unfolding 1 2 and_then_stable_snd [OF rest]
    by (simp add: issues_titled_def sent_where_def)
qed


section \<open>An issue pushed first stays first\<close>

text \<open>
  The statements of a scanner only append to the list of issues, and whether they throw
  does not depend on that list: run after one more issue has been pushed, they end alike
  and leave the same issues behind it.
\<close>

lemma carries_skip: "carries p skip"
  by (simp add: carries_def skip_def)

lemma carries_throw: "carries p (throw e)"
  by (simp add: carries_def throw_def)

lemma carries_and_then:
  assumes "carries p f" and "carries p g"
  shows "carries p (and_then f g)"
  unfolding carries_def
proof (intro allI impI)
  fix s t assume a: "ahead p s t"
  obtain x s' where fs: "f s = (x, s')" by (cases "f s")
  obtain y t' where ft: "f t = (y, t')" by (cases "f t")
  note c = assms(1) [unfolded carries_def, rule_format, OF a]
  have xy: "y = x" and a': "ahead p s' t'"
    using c fs ft by simp_all
  show "fst (and_then f g t) = fst (and_then f g s)
        \<and> ahead p (snd (and_then f g s)) (snd (and_then f g t))"
  proof (cases x)
    case None
    then show ?thesis
      using assms(2) a' fs ft xy by (simp add: and_then_def carries_def)
  next
    case (Some e)
    then show ?thesis using a' fs ft xy by (simp add: and_then_def)
  qed
qed

lemma carries_if: "carries p f \<Longrightarrow> carries p g \<Longrightarrow> carries p (if b then f else g)"
  by simp

lemma carries_await_store: "carries p (await_store r out)"
  by (cases out) (simp_all add: carries_def await_store_def ahead_def Let_def)

lemma carries_push_issue: "carries p (push_issue sev)"
  by (simp add: carries_def push_issue_def ahead_def)

lemma carries_createIssue: "carries p (createIssue c tid title sev out)"
  unfolding createIssue_def by (intro carries_and_then carries_await_store carries_push_issue)

lemma carries_complete_test: "carries p (complete_test tid k out)"
  by (cases out) (simp_all add: carries_def complete_test_def await_store_def ahead_def Let_def)

lemmas carries_intros = carries_skip carries_throw carries_and_then carries_if
  carries_createIssue carries_complete_test

lemma carries_seo_rest:
  "carries p (and_then (seo_check_meta env tid)
               (and_then (seo_check_h1 env tid) (complete_test tid 10 (seo_complete env))))"
  unfolding seo_check_meta_def seo_check_h1_def
  by (intro carries_intros | simp split: outcome.splits add: carries_intros)+

lemma catch_block_ahead:
  assumes "ahead [i] s t"
  shows "result (catch_block out (x, t)) = with_issue i (result (catch_block out (x, s)))"
  using assms
  by (cases x; cases "testId s"; cases out) (simp_all add: catch_block_def ahead_def)

lemma seo_title_in_front:
  assumes "seo_test_insert env = Resolves (Some tid)" and "seo_page_title env = Resolves title"
    and "seo_title_issue env = Resolves ()"
    and "title = [] \<and> sev = ''high'' \<or> 60 < length title \<and> sev = ''medium''"
  shows "result (SEOScanner_scan env)
           = with_issue \<lparr>severity = sev\<rparr>
               (result (SEOScanner_scan (env\<lparr>seo_page_title := Resolves plain_title\<rparr>)))"
proof -
  let ?env0 = "env\<lparr>seo_page_title := Resolves plain_title\<rparr>"
  let ?rest = "and_then (seo_check_meta env tid)
                 (and_then (seo_check_h1 env tid) (complete_test tid 10 (seo_complete env)))"
  let ?s0 = "\<lparr>issues = [], testId = Some tid, sent = [InsertTest ''SEO Audit'' ''seo'']\<rparr>"
  have "\<exists>T. seo_check_title env tid ?s0
                       = (None, ?s0\<lparr>sent := sent ?s0 @ [InsertIssue tid T sev ''seo''],
                                    issues := [\<lparr>severity = sev\<rparr>]\<rparr>)"
  proof (cases "title = []")
    case True
    then show ?thesis
      using assms(2-4)
      by (simp add: seo_check_title_def createIssue_def and_then_def await_store_def
            push_issue_def Let_def)
  next
    case False
    then have "60 < length title" "sev = ''medium''" using assms(4) by auto
    then show ?thesis
      using assms(2,3) False
      by (simp add: seo_check_title_def createIssue_def and_then_def await_store_def
            push_issue_def Let_def)
  qed
  then obtain T where T: "seo_check_title env tid ?s0
                       = (None, ?s0\<lparr>sent := sent ?s0 @ [InsertIssue tid T sev ''seo''],
                                    issues := [\<lparr>severity = sev\<rparr>]\<rparr>)"
    by blast
  let ?s1 = "?s0\<lparr>sent := sent ?s0 @ [InsertIssue tid T sev ''seo''], issues := [\<lparr>severity = sev\<rparr>]\<rparr>"
  have t1: "SEOScanner_try env init_mstate = ?rest ?s1"
    using assms(1) T
    by (simp add: SEOScanner_try_def create_test_def init_mstate_def Let_def and_then_def)
  have rest0: "and_then (seo_check_meta ?env0 tid)
                 (and_then (seo_check_h1 ?env0 tid) (complete_test tid 10 (seo_complete ?env0))) = ?rest"
    by (simp add: seo_check_meta_def seo_check_h1_def cong: outcome.case_cong if_cong)
  have t0: "SEOScanner_try ?env0 init_mstate = ?rest ?s0"
    using assms(1) rest0
    by (simp add: SEOScanner_try_def create_test_def init_mstate_def Let_def and_then_def
          seo_check_title_def plain_title_def skip_def)
  have a: "ahead [\<lparr>severity = sev\<rparr>] ?s0 ?s1" by (simp add: ahead_def)
  obtain x s where r0: "?rest ?s0 = (x, s)" by (cases "?rest ?s0")
  obtain y t where r1: "?rest ?s1 = (y, t)" by (cases "?rest ?s1")
  note c = carries_seo_rest [of "[\<lparr>severity = sev\<rparr>]" env tid, unfolded carries_def, rule_format, OF a]
  have yx: "y = x" and a': "ahead [\<lparr>severity = sev\<rparr>] s t"
    using c r0 r1 by simp_all
  have 1: "SEOScanner_scan env = catch_block (seo_failed env) (x, t)"
    by (simp only: SEOScanner_scan_def t1 r1 yx)
  have 0: "SEOScanner_scan ?env0 = catch_block (seo_failed env) (x, s)"
    unfolding SEOScanner_scan_def t0 r0 by simp
  show ?thesis
    unfolding 0 1 by (rule catch_block_ahead [OF a'])
qed

section \<open>A scan of the page of the end-to-end scenario\<close>

lemma setup_resolves:
  assumes "upd_start env = Resolves ()" and "browser_set env \<or> launch env = Resolves ()"
    and "newContext env = Resolves ()" and "newPage env = Resolves ()"
    and "goto env = Resolves ()" and "upd_navigated env = Resolves ()"
  shows "scan_setup env init_ostate =
      (None, \<lparr>allIssues = [], completed = 0,
              written = [UpdateScan ''running'' (Some (Finite 0)) None,
                         UpdateScan ''running'' (Some (Finite 5)) None]\<rparr>)"
  using assms
  by (auto simp: scan_setup_def and_then_def updateScanStatus_def await_scan_update_def
        await_ext_def skip_def init_ostate_def Let_def)

lemma http_not_https: "startsWith u ''http://'' \<Longrightarrow> \<not> startsWith u ''https''"
proof
  assume a: "startsWith u ''http://''" and b: "startsWith u ''https''"
  have t7: "take (length ''http://'') u = ''http://''" using a by (simp only: startsWith_def)
  have "u = ''http://'' @ drop (length ''http://'') u" by (metis t7 append_take_drop_id)
  then obtain r where "u = ''http://'' @ r" by blast
  then show False using b by (simp add: startsWith_def)
qed

lemma seo_scenario_scan:
  assumes "seo_test_insert s = Resolves (Some tid)" and "seo_page_title s = Resolves []"
    and "seo_meta_count s = Resolves 0" and "seo_h1_count s = Resolves 2"
    and "seo_title_issue s = Resolves ()" and "seo_meta_issue s = Resolves ()"
    and "seo_h1_issue s = Resolves ()" and "seo_complete s = Resolves ()"
  shows "SEOScanner_scan s =
     \<lparr>result = Resolves [\<lparr>severity = ''high''\<rparr>, \<lparr>severity = ''high''\<rparr>, \<lparr>severity = ''medium''\<rparr>],
      requests =
        [InsertTest ''SEO Audit'' ''seo'',
         InsertIssue tid ''Missing Title Tag'' ''high'' ''seo'',
         InsertIssue tid ''Missing Meta Description'' ''high'' ''seo'',
         InsertIssue tid ''Multiple H1 Tags'' ''medium'' ''seo'',
         UpdateTest tid ''completed'' (Some 70)]\<rparr>"
  using assms
  by (simp add: SEOScanner_scan_def SEOScanner_try_def create_test_def init_mstate_def Let_def
        and_then_def seo_check_title_def seo_check_meta_def seo_check_h1_def createIssue_def
        await_store_def push_issue_def complete_test_def flat_score_def catch_block_def)

lemma sec_scenario_scan:
  assumes "sec_test_insert c = Resolves (Some tid)" and "sec_goto c u = Resolves response"
    and "header_missing (headers_or_empty response) ''content-security-policy''"
    and "header_missing (headers_or_empty response) ''x-frame-options''"
    and "sec_https_issue c = Resolves ()" and "sec_csp_issue c = Resolves ()"
    and "sec_xfo_issue c = Resolves ()" and "sec_complete c = Resolves ()"
    and "\<not> startsWith u ''https''"
  shows "SecurityScanner_scan c u =
     \<lparr>result = Resolves [\<lparr>severity = ''high''\<rparr>, \<lparr>severity = ''medium''\<rparr>, \<lparr>severity = ''medium''\<rparr>],
      requests =
        [InsertTest ''Security Audit'' ''security'',
         InsertIssue tid ''No HTTPS'' ''high'' ''security'',
         InsertIssue tid ''Missing Content-Security-Policy Header'' ''medium'' ''security'',
         InsertIssue tid ''Missing X-Frame-Options Header'' ''medium'' ''security'',
         UpdateTest tid ''completed'' (Some 70)]\<rparr>"
  using assms
  by (simp add: SecurityScanner_scan_def SecurityScanner_try_def create_test_def init_mstate_def
        Let_def and_then_def sec_checks_def createIssue_def await_store_def push_issue_def
        complete_test_def flat_score_def catch_block_def)

section \<open>How the \<^verbatim>\<open>try\<close> block of a scanner ends\<close>

lemma scanner_scan_catch:
  "scanner_scan m = catch_block (scanner_failed m) (scanner_try m init_mstate)"
  by (cases m)
     (simp_all add: PerformanceScanner_scan_def AccessibilityScanner_scan_def SEOScanner_scan_def
        SecurityScanner_scan_def BestPracticesScanner_scan_def)

lemma create_test_outcome:
  assumes "\<And>tid. stable testId (body tid)"
    and "create_test n c f out body init_mstate = (x, s)"
  shows "(\<exists>tid. out = Resolves (Some tid) \<and> testId s = Some tid)
       \<or> ((\<forall>tid. out \<noteq> Resolves (Some tid)) \<and> x \<noteq> None
            \<and> s = \<lparr>issues = [], testId = None, sent = [InsertTest n c]\<rparr>)"
proof (cases out)
  case (Rejects e)
  then show ?thesis using assms(2) by (auto simp: create_test_def init_mstate_def Let_def)
next
  case (Resolves v)
  show ?thesis
  proof (cases v)
    case None
    then show ?thesis using Resolves assms(2) by (auto simp: create_test_def init_mstate_def Let_def)
  next
    case (Some tid)
    let ?s0 = "\<lparr>issues = [], testId = Some tid, sent = [InsertTest n c]\<rparr>"
    have "body tid ?s0 = (x, s)"
      using Resolves Some assms(2) by (simp add: create_test_def init_mstate_def Let_def)
    then have "testId s = Some tid"
      using stableD [OF assms(1), of tid ?s0] by simp
    then show ?thesis using Resolves Some by simp
  qed
qed

lemma body_keeps_id:
  "stable testId (perf_checks pe tid)"
  "stable testId (and_then (a11y_checks ae tid) (complete_test tid 5 (a11y_complete ae)))"
  "stable testId (and_then (seo_check_title se tid)
              (and_then (seo_check_meta se tid)
              (and_then (seo_check_h1 se tid)
                        (complete_test tid 10 (seo_complete se)))))"
  "stable testId (and_then (sec_checks ce u tid) (complete_test tid 10 (sec_complete ce)))"
  "stable testId (and_then (bp_checks be tid) (complete_test tid 10 (bp_complete be)))"
      apply (simp add: perf_checks_def perf_check_audit_def Let_def stable_intros
               split: outcome.splits option.splits)
     apply (intro stable_intros stable_a11y_checks)
    apply (intro stable_and_then stable_id_complete_test;
           simp add: seo_check_title_def seo_check_meta_def seo_check_h1_def stable_intros
             split: outcome.splits)
   apply (intro stable_and_then stable_id_complete_test;
          simp add: sec_checks_def Let_def stable_intros split: outcome.splits)
  apply (intro stable_and_then stable_id_complete_test;
         simp add: bp_checks_def stable_intros split: outcome.splits)
  done

lemma scanner_try_outcome:
  assumes "scanner_try m init_mstate = (x, s)"
  shows "(\<exists>tid. scanner_test_insert m = Resolves (Some tid) \<and> testId s = Some tid)
       \<or> ((\<forall>tid. scanner_test_insert m \<noteq> Resolves (Some tid)) \<and> x \<noteq> None
            \<and> issues s = [] \<and> testId s = None \<and> (\<exists>n c. sent s = [InsertTest n c]))"
proof -
  have "(\<exists>tid. scanner_test_insert m = Resolves (Some tid) \<and> testId s = Some tid)
       \<or> ((\<forall>tid. scanner_test_insert m \<noteq> Resolves (Some tid)) \<and> x \<noteq> None
            \<and> (\<exists>n c. s = \<lparr>issues = [], testId = None, sent = [InsertTest n c]\<rparr>))"
  proof (cases m)
    case (Performance e)
    then show ?thesis
      using assms create_test_outcome [where body = "perf_checks e", OF body_keeps_id(1)]
      unfolding Performance scanner_try.simps scanner_test_insert.simps PerformanceScanner_try_def
      by blast
  next
    case (Accessibility e)
    then show ?thesis
      using assms create_test_outcome
          [where body = "\<lambda>tid. and_then (a11y_checks e tid) (complete_test tid 5 (a11y_complete e))",
           OF body_keeps_id(2)]
      unfolding Accessibility scanner_try.simps scanner_test_insert.simps AccessibilityScanner_try_def
      by blast
  next
    case (SEO e)
    then show ?thesis
      using assms create_test_outcome
          [where body = "\<lambda>tid. and_then (seo_check_title e tid)
              (and_then (seo_check_meta e tid)
              (and_then (seo_check_h1 e tid)
                        (complete_test tid 10 (seo_complete e))))",
           OF body_keeps_id(3)]
      unfolding SEO scanner_try.simps scanner_test_insert.simps SEOScanner_try_def
      by blast
  next
    case (Security e u)
    then show ?thesis
      using assms create_test_outcome
          [where body = "\<lambda>tid. and_then (sec_checks e u tid) (complete_test tid 10 (sec_complete e))",
           OF body_keeps_id(4)]
      unfolding Security scanner_try.simps scanner_test_insert.simps SecurityScanner_try_def
      by blast
  next
    case (BestPractices e)
    then show ?thesis
      using assms create_test_outcome
          [where body = "\<lambda>tid. and_then (bp_checks e tid) (complete_test tid 10 (bp_complete e))",
           OF body_keeps_id(5)]
      unfolding BestPractices scanner_try.simps scanner_test_insert.simps BestPracticesScanner_try_def
      by blast
  qed
  then show ?thesis by auto
qed

section \<open>The concrete scans, evaluated\<close>

lemma seo_page_scan:
  "SEOScanner_scan seo_page =
     \<lparr>result = Resolves [\<lparr>severity = ''high''\<rparr>, \<lparr>severity = ''high''\<rparr>, \<lparr>severity = ''medium''\<rparr>],
      requests =
        [InsertTest ''SEO Audit'' ''seo'',
         InsertIssue ''test-seo'' ''Missing Title Tag'' ''high'' ''seo'',
         InsertIssue ''test-seo'' ''Missing Meta Description'' ''high'' ''seo'',
         InsertIssue ''test-seo'' ''Multiple H1 Tags'' ''medium'' ''seo'',
         UpdateTest ''test-seo'' ''completed'' (Some 70)]\<rparr>"
  by code_simp

lemma sec_page_scan:
  "SecurityScanner_scan sec_page ''http://example.com'' =
     \<lparr>result = Resolves [\<lparr>severity = ''high''\<rparr>, \<lparr>severity = ''medium''\<rparr>, \<lparr>severity = ''medium''\<rparr>],
      requests =
        [InsertTest ''Security Audit'' ''security'',
         InsertIssue ''test-sec'' ''No HTTPS'' ''high'' ''security'',
         InsertIssue ''test-sec'' ''Missing Content-Security-Policy Header'' ''medium'' ''security'',
         InsertIssue ''test-sec'' ''Missing X-Frame-Options Header'' ''medium'' ''security'',
         UpdateTest ''test-sec'' ''completed'' (Some 70)]\<rparr>"
  by code_simp

lemma bp_page_scan:
  "BestPracticesScanner_scan bp_page =
     \<lparr>result = Resolves [],
      requests =
        [InsertTest ''Best Practices Audit'' ''best_practices'',
         UpdateTest ''test-bp'' ''completed'' (Some 100)]\<rparr>"
  by code_simp

lemma a11y_page_scan:
  "AccessibilityScanner_scan a11y_page =
     \<lparr>result = Resolves [\<lparr>severity = ''high''\<rparr>, \<lparr>severity = ''high''\<rparr>],
      requests =
        [InsertTest ''Accessibility Audit'' ''accessibility'',
         InsertIssue ''test-a11y'' ''Images must have alternate text'' ''high'' ''accessibility'',
         InsertIssue ''test-a11y'' ''Images must have alternate text'' ''high'' ''accessibility'',
         UpdateTest ''test-a11y'' ''completed'' (Some 90)]\<rparr>"
  by code_simp

lemma perf_page_scan:
  "PerformanceScanner_scan perf_page =
     \<lparr>result = Resolves [],
      requests =
        [InsertTest ''Performance Analysis'' ''performance'',
         UpdateTest ''test-perf'' ''failed'' None]\<rparr>"
  by code_simp

lemma run_scanner_off: "run_scanner False r n out s = (None, s)"
  by (simp add: run_scanner_def)

lemma run_scanner_on:
  "run_scanner True \<lparr>result = Resolves xs, requests = rs\<rparr> n (Resolves ()) s =
     (None, \<lparr>allIssues = allIssues s @ xs, completed = Suc (completed s),
             written = written s @ rs @ [progress_update n (Suc (completed s))]\<rparr>)"
  by (simp add: run_scanner_def Let_def updateScanStatus_def await_scan_update_def progress_update_def)

lemma setup_all_resolve:
  "scan_setup all_resolve init_ostate =
      (None, \<lparr>allIssues = [], completed = 0,
              written = [UpdateScan ''running'' (Some (Finite 0)) None,
                         UpdateScan ''running'' (Some (Finite 5)) None]\<rparr>)"
  by (simp add: all_resolve_def scan_setup_def and_then_def updateScanStatus_def
        await_scan_update_def await_ext_def skip_def init_ostate_def Let_def)

lemma all_resolve_fields:
  "perf_collab all_resolve = perf_page" "a11y_collab all_resolve = a11y_page"
  "seo_collab all_resolve = seo_page" "sec_collab all_resolve = sec_page"
  "bp_collab all_resolve = bp_page"
  "upd_perf all_resolve = Resolves ()" "upd_a11y all_resolve = Resolves ()"
  "upd_seo all_resolve = Resolves ()" "upd_sec all_resolve = Resolves ()"
  "upd_bp all_resolve = Resolves ()" "complete_out all_resolve = Resolves ()"
  "close_out all_resolve = Resolves ()" "fail_out all_resolve = Resolves ()"
  by (simp_all add: all_resolve_def)

lemma default_request_log:
  "performCompleteScan all_resolve default_request =
   \<lparr>rejected = None,
    store_log =
      [UpdateScan ''running'' (Some (Finite 0)) None,
       UpdateScan ''running'' (Some (Finite 5)) None,
       InsertTest ''Performance Analysis'' ''performance'',
       UpdateTest ''test-perf'' ''failed'' None,
       UpdateScan ''running'' (Some (Finite 26)) None,
       InsertTest ''Accessibility Audit'' ''accessibility'',
       InsertIssue ''test-a11y'' ''Images must have alternate text'' ''high'' ''accessibility'',
       InsertIssue ''test-a11y'' ''Images must have alternate text'' ''high'' ''accessibility'',
       UpdateTest ''test-a11y'' ''completed'' (Some 90),
       UpdateScan ''running'' (Some (Finite 42)) None,
       InsertTest ''SEO Audit'' ''seo'',
       InsertIssue ''test-seo'' ''Missing Title Tag'' ''high'' ''seo'',
       InsertIssue ''test-seo'' ''Missing Meta Description'' ''high'' ''seo'',
       InsertIssue ''test-seo'' ''Multiple H1 Tags'' ''medium'' ''seo'',
       UpdateTest ''test-seo'' ''completed'' (Some 70),
       UpdateScan ''running'' (Some (Finite 58)) None,
       InsertTest ''Security Audit'' ''security'',
       InsertIssue ''test-sec'' ''No HTTPS'' ''high'' ''security'',
       InsertIssue ''test-sec'' ''Missing Content-Security-Policy Header'' ''medium'' ''security'',
       InsertIssue ''test-sec'' ''Missing X-Frame-Options Header'' ''medium'' ''security'',
       UpdateTest ''test-sec'' ''completed'' (Some 70),
       UpdateScan ''running'' (Some (Finite 74)) None,
       InsertTest ''Best Practices Audit'' ''best_practices'',
       UpdateTest ''test-bp'' ''completed'' (Some 100),
       UpdateScan ''running'' (Some (Finite 90)) None,
       UpdateScan ''completed'' (Some (Finite 100))
        (Some (Summary \<lparr>totalIssues = 8, criticalIssues = 5, overallScore = 35,
                         completedTests = 5, totalTests = 5\<rparr>))]\<rparr>"
proof -
  have t: "testsToRun default_request = default_tests"
    by (simp add: testsToRun_def default_request_def)
  have n: "count_truthy default_tests = 5"
    by (simp add: count_truthy_def object_values_def default_tests_def)
  have u: "url default_request = ''http://example.com''"
    by (simp add: default_request_def)
  have flags: "truthy (performance default_tests)" "truthy (accessibility default_tests)"
    "truthy (seo default_tests)" "truthy (security default_tests)"
    "truthy (best_practices default_tests)"
    by (simp_all add: default_tests_def truthy_def)
  show ?thesis
    by (simp add: performCompleteScan_def orchestrator_try_def run_scanners_def t n u flags
          and_then_def setup_all_resolve all_resolve_fields Let_def
          run_scanner_on seo_page_scan sec_page_scan bp_page_scan a11y_page_scan
          perf_page_scan completeScan_def await_scan_update_def await_ext_def
          progress_update_def module_progress_def js_div_def make_summary_def
          calculateOverallScore_def weight_or_0_def weights_def)
qed

lemma http_request_log:
  "performCompleteScan all_resolve http_request =
   \<lparr>rejected = None,
    store_log =
      [UpdateScan ''running'' (Some (Finite 0)) None,
       UpdateScan ''running'' (Some (Finite 5)) None,
       InsertTest ''SEO Audit'' ''seo'',
       InsertIssue ''test-seo'' ''Missing Title Tag'' ''high'' ''seo'',
       InsertIssue ''test-seo'' ''Missing Meta Description'' ''high'' ''seo'',
       InsertIssue ''test-seo'' ''Multiple H1 Tags'' ''medium'' ''seo'',
       UpdateTest ''test-seo'' ''completed'' (Some 70),
       UpdateScan ''running'' (Some (Finite 50)) None,
       InsertTest ''Security Audit'' ''security'',
       InsertIssue ''test-sec'' ''No HTTPS'' ''high'' ''security'',
       InsertIssue ''test-sec'' ''Missing Content-Security-Policy Header'' ''medium'' ''security'',
       InsertIssue ''test-sec'' ''Missing X-Frame-Options Header'' ''medium'' ''security'',
       UpdateTest ''test-sec'' ''completed'' (Some 70),
       UpdateScan ''running'' (Some (Finite 90)) None,
       UpdateScan ''completed'' (Some (Finite 100))
        (Some (Summary \<lparr>totalIssues = 6, criticalIssues = 3, overallScore = 55,
                         completedTests = 2, totalTests = 2\<rparr>))]\<rparr>"
proof -
  have t: "testsToRun http_request = seo_and_security"
    by (simp add: testsToRun_def http_request_def)
  have n: "count_truthy seo_and_security = 2"
    by (simp add: count_truthy_def object_values_def seo_and_security_def)
  have u: "url http_request = ''http://example.com''"
    by (simp add: http_request_def)
  have flags: "\<not> truthy (performance seo_and_security)" "\<not> truthy (accessibility seo_and_security)"
    "truthy (seo seo_and_security)" "truthy (security seo_and_security)"
    "\<not> truthy (best_practices seo_and_security)"
    by (simp_all add: seo_and_security_def truthy_def)
  show ?thesis
    by (simp add: performCompleteScan_def orchestrator_try_def run_scanners_def t n u flags
          and_then_def setup_all_resolve all_resolve_fields Let_def run_scanner_off
          run_scanner_on seo_page_scan sec_page_scan completeScan_def await_scan_update_def
          await_ext_def progress_update_def module_progress_def js_div_def make_summary_def
          calculateOverallScore_def weight_or_0_def weights_def)
qed

lemma http_request_enabled: "length (enabled_modules http_request) = 2"
  by (simp add: enabled_modules_def testsToRun_def http_request_def seo_and_security_def truthy_def)

lemma http_request_extra: "extra_truthy http_request = 0"
  by (simp add: extra_truthy_def testsToRun_def http_request_def seo_and_security_def)


lemma seo_mobile_request_log:
  "performCompleteScan all_resolve seo_mobile_request =
   \<lparr>rejected = None,
    store_log =
      [UpdateScan ''running'' (Some (Finite 0)) None,
       UpdateScan ''running'' (Some (Finite 5)) None,
       InsertTest ''SEO Audit'' ''seo'',
       InsertIssue ''test-seo'' ''Missing Title Tag'' ''high'' ''seo'',
       InsertIssue ''test-seo'' ''Missing Meta Description'' ''high'' ''seo'',
       InsertIssue ''test-seo'' ''Multiple H1 Tags'' ''medium'' ''seo'',
       UpdateTest ''test-seo'' ''completed'' (Some 70),
       UpdateScan ''running'' (Some (Finite 50)) None,
       UpdateScan ''completed'' (Some (Finite 100))
        (Some (Summary \<lparr>totalIssues = 3, criticalIssues = 2, overallScore = 75,
                         completedTests = 2, totalTests = 2\<rparr>))]\<rparr>"
proof -
  have t: "testsToRun seo_mobile_request = seo_and_mobile"
    by (simp add: testsToRun_def seo_mobile_request_def)
  have n: "count_truthy seo_and_mobile = 2"
    by (simp add: count_truthy_def object_values_def seo_and_mobile_def)
  have flags: "\<not> truthy (performance seo_and_mobile)" "\<not> truthy (accessibility seo_and_mobile)"
    "truthy (seo seo_and_mobile)" "\<not> truthy (security seo_and_mobile)"
    "\<not> truthy (best_practices seo_and_mobile)"
    by (simp_all add: seo_and_mobile_def truthy_def)
  show ?thesis
    by (simp add: performCompleteScan_def orchestrator_try_def run_scanners_def t n flags
          and_then_def setup_all_resolve all_resolve_fields Let_def run_scanner_off
          run_scanner_on seo_page_scan completeScan_def await_scan_update_def
          await_ext_def progress_update_def module_progress_def js_div_def make_summary_def
          calculateOverallScore_def weight_or_0_def weights_def)
qed

lemma seo_no_row_try:
  "SEOScanner_try seo_no_row init_mstate =
     (Some ''Failed to create SEO test record.'',
      \<lparr>issues = [], testId = None, sent = [InsertTest ''SEO Audit'' ''seo'']\<rparr>)"
  by code_simp


lemma seo_meta_throws_try:
  "SEOScanner_try seo_meta_throws init_mstate =
     (Some ''Target page, context or browser has been closed'',
      \<lparr>issues = [\<lparr>severity = ''high''\<rparr>], testId = Some ''test-seo'',
       sent = [InsertTest ''SEO Audit'' ''seo'',
               InsertIssue ''test-seo'' ''Missing Title Tag'' ''high'' ''seo'']\<rparr>)"
  by code_simp

lemma seo_meta_throws_scan:
  "SEOScanner_scan seo_meta_throws =
     \<lparr>result = Resolves [\<lparr>severity = ''high''\<rparr>],
      requests = [InsertTest ''SEO Audit'' ''seo'',
                  InsertIssue ''test-seo'' ''Missing Title Tag'' ''high'' ''seo'',
                  UpdateTest ''test-seo'' ''failed'' None]\<rparr>"
  by code_simp



lemma seo_title_throws_try:
  "SEOScanner_try seo_title_throws init_mstate =
     (Some ''Execution context was destroyed'',
      \<lparr>issues = [], testId = Some ''test-seo'', sent = [InsertTest ''SEO Audit'' ''seo'']\<rparr>)"
  by code_simp

section \<open>The scheme of a URL and the check of the Security scanner\<close>





section \<open>The SEO scanner on a page with a single H1 element\<close>

lemma seo_h1_single_returns:
  assumes "seo_h1_count env = Resolves 1" and "result (SEOScanner_scan env) = Resolves xs"
  shows "length xs \<le> 2"
  using assms
  by (cases "seo_test_insert env"; cases "seo_page_title env"; cases "seo_title_issue env";
      cases "seo_meta_count env"; cases "seo_meta_content env"; cases "seo_meta_issue env";
      cases "seo_complete env"; cases "seo_failed env")
     (auto simp: SEOScanner_scan_def SEOScanner_try_def create_test_def
        init_mstate_def Let_def and_then_def seo_check_title_def seo_check_meta_def seo_check_h1_def
        createIssue_def await_store_def throw_def
        push_issue_def complete_test_def catch_block_def skip_def split: option.splits if_splits)

lemma seo_plain_title_silent:
  assumes "seo_test_insert env = Resolves (Some tid)"
    and "T = ''Missing Title Tag'' \<or> T = ''Title Tag Too Long''"
  shows "issues_titled T (requests (SEOScanner_scan (env\<lparr>seo_page_title := Resolves plain_title\<rparr>))) = []"
  using assms seo_title_issues [of "env\<lparr>seo_page_title := Resolves plain_title\<rparr>" tid plain_title T]
  by (simp add: seo_check_title_def plain_title_def skip_def issues_titled_def)

section \<open>More concrete scans, evaluated\<close>

lemma long_title_page_scan:
  "result (SEOScanner_scan long_title_page) = Resolves [\<lparr>severity = ''medium''\<rparr>, \<lparr>severity = ''high''\<rparr>]"
  by code_simp

lemma long_title_plain_scan:
  "result (SEOScanner_scan (long_title_page\<lparr>seo_page_title := Resolves plain_title\<rparr>))
     = Resolves [\<lparr>severity = ''high''\<rparr>]"
  by code_simp

lemma seo_page_plain_scan:
  "result (SEOScanner_scan (seo_page\<lparr>seo_page_title := Resolves plain_title\<rparr>))
     = Resolves [\<lparr>severity = ''high''\<rparr>, \<lparr>severity = ''medium''\<rparr>]"
  by code_simp




section \<open>The counts of tests in the summary\<close>

text \<open>
  The two counts in the summary of a completed scan are the number of enabled modules plus
  the number of truthy properties of the tests object that name no module. With no flag
  truthy and the awaits of the orchestrator resolving, no scanner runs and the scan row
  goes to progress 0, to progress 5 and to the completed state.
\<close>

lemma summary_counts_total:
  assumes "UpdateScan ''completed'' p sm \<in> set (store_log (performCompleteScan env req))"
  shows "\<exists>summ. sm = Some (Summary summ)
           \<and> totalTests summ = length (enabled_modules req) + extra_truthy req
           \<and> completedTests summ = length (enabled_modules req) + extra_truthy req"
  using completed_update_in_log [OF assms]
  by (simp add: make_summary_def Let_def count_truthy_split)

lemma no_module_log:
  assumes "\<not> truthy (performance (testsToRun req))" and "\<not> truthy (accessibility (testsToRun req))"
    and "\<not> truthy (seo (testsToRun req))" and "\<not> truthy (security (testsToRun req))"
    and "\<not> truthy (best_practices (testsToRun req))"
    and "upd_start env = Resolves ()" and "browser_set env \<or> launch env = Resolves ()"
    and "newContext env = Resolves ()" and "newPage env = Resolves ()"
    and "goto env = Resolves ()" and "upd_navigated env = Resolves ()"
    and "complete_out env = Resolves ()" and "close_out env = Resolves ()"
  shows "performCompleteScan env req =
           \<lparr>rejected = None,
            store_log =
              [UpdateScan ''running'' (Some (Finite 0)) None,
               UpdateScan ''running'' (Some (Finite 5)) None,
               UpdateScan ''completed'' (Some (Finite 100))
                 (Some (Summary \<lparr>totalIssues = 0, criticalIssues = 0, overallScore = 100,
                                  completedTests = extra_truthy req,
                                  totalTests = extra_truthy req\<rparr>))]\<rparr>"
proof -
  let ?T = "count_truthy (testsToRun req)"
  let ?s0 = "\<lparr>allIssues = [], completed = 0,
              written = [UpdateScan ''running'' (Some (Finite 0)) None,
                         UpdateScan ''running'' (Some (Finite 5)) None]\<rparr>"
  note st0 = setup_resolves [OF assms(6-11)]
  have "enabled_modules req = []"
    using assms(1-5) by (simp add: enabled_modules_def Let_def)
  then have T: "?T = extra_truthy req"
    by (simp add: count_truthy_split)
  have summ: "make_summary [] ?T = \<lparr>totalIssues = 0, criticalIssues = 0, overallScore = 100,
                                     completedTests = extra_truthy req, totalTests = extra_truthy req\<rparr>"
    by (simp add: make_summary_def calculateOverallScore_def T)
  have runs: "scanner_runs env req = map (\<lambda>(en, r, out). (False, r, out)) (scanner_runs env req)"
    using assms(1-5) by (simp add: scanner_runs_def Let_def)
  have skip_all: "run_list (map (\<lambda>(en, r, out). (False, r, out)) xs) k s = (None, s)"
    for xs :: "(bool \<times> scan_result \<times> unit outcome) list" and k and s :: ostate
    by (induction xs) (auto simp: run_scanner_def)
  have rl: "run_list (scanner_runs env req) ?T ?s0 = (None, ?s0)"
    using skip_all runs by metis
  have "orchestrator_try env req init_ostate =
          (None, ?s0\<lparr>written := written ?s0 @ [UpdateScan ''completed'' (Some (Finite 100))
                 (Some (Summary (make_summary [] ?T)))]\<rparr>)"
    using st0 rl assms(12,13)
    by (simp add: orchestrator_try_def and_then_def run_scanners_eq completeScan_def
          await_scan_update_def await_ext_def Let_def)
  then show ?thesis
    unfolding summ by (simp add: performCompleteScan_def)
qed

section \<open>The claims\<close>

text \<open>
  C1. The overall score that the orchestrator computes is the maximum of 0 and 100 minus
  the sum of the weights of the severities (critical 20, high 10, medium 5, low 2); for
  an empty list of issues it is 100; and the score in the summary of a completed scan is
  this value for the issues that the enabled modules returned, taken together.
\<close>

theorem overall_score_weighted:
  "calculateOverallScore found = max 0 (100 - (\<Sum>i\<leftarrow>found. spec_weight (severity i)))
   \<and> calculateOverallScore [] = 100
   \<and> (UpdateScan ''completed'' p (Some (Summary summ)) \<in> set (store_log (performCompleteScan env req))
        \<longrightarrow> overallScore summ
              = max 0 (100 - (\<Sum>i\<leftarrow>collected_issues env req. spec_weight (severity i))))"
proof -
  have "overallScore summ = calculateOverallScore (collected_issues env req)"
    if "UpdateScan ''completed'' p (Some (Summary summ)) \<in> set (store_log (performCompleteScan env req))"
    using completed_update_in_log [OF that] by (simp add: make_summary_def Let_def)
  then show ?thesis
    by (simp add: score_formula del: spec_weight.simps)
qed

theorem overall_score_weighted_witness:
  "UpdateScan ''completed'' (Some (Finite 100))
     (Some (Summary \<lparr>totalIssues = 6, criticalIssues = 3, overallScore = 55,
                      completedTests = 2, totalTests = 2\<rparr>))
     \<in> set (store_log (performCompleteScan all_resolve http_request))
   \<and> (55::int) = max 0 (100 - (\<Sum>i\<leftarrow>collected_issues all_resolve http_request.
                                  spec_weight (severity i)))"
proof -
  let ?summ = "\<lparr>totalIssues = 6, criticalIssues = 3, overallScore = 55,
                 completedTests = 2, totalTests = 2\<rparr>"
  have mem: "UpdateScan ''completed'' (Some (Finite 100)) (Some (Summary ?summ))
               \<in> set (store_log (performCompleteScan all_resolve http_request))"
    by (simp add: http_request_log)
  show ?thesis
    using mem overall_score_weighted [of "[]" "Some (Finite 100)" ?summ all_resolve http_request]
    by simp
qed

text \<open>
  C2 (as the code has it). With exactly the SEO and the Security module enabled, a page
  with an empty title, no meta description element and two H1 elements, a URL that
  begins with http://, a response without Content-Security-Policy and X-Frame-Options
  headers, and every await resolving: the SEO scanner returns two high and one medium
  issue, the Security scanner one high and two medium issues, and the scan completes
  with 6 issues, 3 of them high, and the overall score 100 - (3 * 10 + 3 * 5) = 55. (The
  two counts of tests in that summary are 2, and more by the number of truthy properties
  of the tests object that name no module, when there are any.)
\<close>

theorem seo_security_scenario:
  assumes "truthy (seo (testsToRun req))" and "truthy (security (testsToRun req))"
    and "\<not> truthy (performance (testsToRun req))" and "\<not> truthy (accessibility (testsToRun req))"
    and "\<not> truthy (best_practices (testsToRun req))"
    and "startsWith (url req) ''http://''"
    and "seo_test_insert (seo_collab env) = Resolves (Some tid1)"
    and "seo_page_title (seo_collab env) = Resolves []"
    and "seo_meta_count (seo_collab env) = Resolves 0"
    and "seo_h1_count (seo_collab env) = Resolves 2"
    and "seo_title_issue (seo_collab env) = Resolves ()"
    and "seo_meta_issue (seo_collab env) = Resolves ()"
    and "seo_h1_issue (seo_collab env) = Resolves ()"
    and "seo_complete (seo_collab env) = Resolves ()"
    and "sec_test_insert (sec_collab env) = Resolves (Some tid2)"
    and "sec_goto (sec_collab env) (url req) = Resolves response"
    and "header_missing (headers_or_empty response) ''content-security-policy''"
    and "header_missing (headers_or_empty response) ''x-frame-options''"
    and "sec_https_issue (sec_collab env) = Resolves ()"
    and "sec_csp_issue (sec_collab env) = Resolves ()"
    and "sec_xfo_issue (sec_collab env) = Resolves ()"
    and "sec_complete (sec_collab env) = Resolves ()"
    and "upd_start env = Resolves ()" and "browser_set env \<or> launch env = Resolves ()"
    and "newContext env = Resolves ()" and "newPage env = Resolves ()"
    and "goto env = Resolves ()" and "upd_navigated env = Resolves ()"
    and "upd_seo env = Resolves ()" and "upd_sec env = Resolves ()"
    and "complete_out env = Resolves ()"
  shows "result (SEOScanner_scan (seo_collab env))
           = Resolves [\<lparr>severity = ''high''\<rparr>, \<lparr>severity = ''high''\<rparr>, \<lparr>severity = ''medium''\<rparr>]
       \<and> result (SecurityScanner_scan (sec_collab env) (url req))
           = Resolves [\<lparr>severity = ''high''\<rparr>, \<lparr>severity = ''medium''\<rparr>, \<lparr>severity = ''medium''\<rparr>]
       \<and> UpdateScan ''completed'' (Some (Finite 100))
             (Some (Summary \<lparr>totalIssues = 6, criticalIssues = 3, overallScore = 55,
                              completedTests = 2 + extra_truthy req,
                              totalTests = 2 + extra_truthy req\<rparr>))
           \<in> set (store_log (performCompleteScan env req))"
proof -
  let ?six = "[\<lparr>severity = ''high''\<rparr>, \<lparr>severity = ''high''\<rparr>, \<lparr>severity = ''medium''\<rparr>,
               \<lparr>severity = ''high''\<rparr>, \<lparr>severity = ''medium''\<rparr>, \<lparr>severity = ''medium''\<rparr>]"
  let ?c = "UpdateScan ''completed'' (Some (Finite 100))
              (Some (Summary (make_summary ?six (count_truthy (testsToRun req)))))"
  note seo = seo_scenario_scan [OF assms(7-14)]
  note sec = sec_scenario_scan [OF assms(15-22) http_not_https [OF assms(6)]]
  note st0 = setup_resolves [OF assms(23-28)]
  have en: "length (enabled_modules req) = 2"
    using assms(1-5) by (simp add: enabled_modules_def Let_def)
  have n: "count_truthy (testsToRun req) = 2 + extra_truthy req"
    by (simp add: count_truthy_split en)
  have summ: "make_summary ?six (count_truthy (testsToRun req))
              = \<lparr>totalIssues = 6, criticalIssues = 3, overallScore = 55,
                 completedTests = 2 + extra_truthy req, totalTests = 2 + extra_truthy req\<rparr>"
    by (simp add: make_summary_def calculateOverallScore_def weight_or_0_def weights_def n)
  obtain x s where t: "orchestrator_try env req init_ostate = (x, s)"
    by (cases "orchestrator_try env req init_ostate")
  have "?c \<in> set (written s)"
    using t assms(1-5) assms(29-31)
    by (cases "close_out env")
       (auto simp: orchestrator_try_def and_then_def st0 run_scanners_def Let_def
          run_scanner_off run_scanner_on seo sec completeScan_def await_scan_update_def
          await_ext_def)
  then have "?c \<in> set (store_log (performCompleteScan env req))"
    using t by (cases x; cases "fail_out env")
      (auto simp: performCompleteScan_def failScan_def await_scan_update_def Let_def)
  then show ?thesis
    unfolding summ using seo sec by simp
qed

theorem seo_security_scenario_witness:
  "result (SEOScanner_scan (seo_collab all_resolve))
           = Resolves [\<lparr>severity = ''high''\<rparr>, \<lparr>severity = ''high''\<rparr>, \<lparr>severity = ''medium''\<rparr>]
       \<and> result (SecurityScanner_scan (sec_collab all_resolve) (url http_request))
           = Resolves [\<lparr>severity = ''high''\<rparr>, \<lparr>severity = ''medium''\<rparr>, \<lparr>severity = ''medium''\<rparr>]
       \<and> UpdateScan ''completed'' (Some (Finite 100))
             (Some (Summary \<lparr>totalIssues = 6, criticalIssues = 3, overallScore = 55,
                              completedTests = 2, totalTests = 2\<rparr>))
           \<in> set (store_log (performCompleteScan all_resolve http_request))"
proof -
  have "result (SEOScanner_scan (seo_collab all_resolve))
           = Resolves [\<lparr>severity = ''high''\<rparr>, \<lparr>severity = ''high''\<rparr>, \<lparr>severity = ''medium''\<rparr>]
       \<and> result (SecurityScanner_scan (sec_collab all_resolve) (url http_request))
           = Resolves [\<lparr>severity = ''high''\<rparr>, \<lparr>severity = ''medium''\<rparr>, \<lparr>severity = ''medium''\<rparr>]
       \<and> UpdateScan ''completed'' (Some (Finite 100))
             (Some (Summary \<lparr>totalIssues = 6, criticalIssues = 3, overallScore = 55,
                              completedTests = 2 + extra_truthy http_request,
                              totalTests = 2 + extra_truthy http_request\<rparr>))
           \<in> set (store_log (performCompleteScan all_resolve http_request))"
    by (rule seo_security_scenario [where ?tid1.0 = "''test-seo''" and ?tid2.0 = "''test-sec''"
                                      and response = "Some Map.empty"])
       (simp_all add: all_resolve_def http_request_def seo_and_security_def testsToRun_def truthy_def
          startsWith_def seo_page_def sec_page_def header_missing_def headers_or_empty_def
          url_scheme_def)
  then show ?thesis by (simp only: http_request_extra add_0_right)
qed

text \<open>
  C2 as stated fails: on such a page the SEO scanner returns one medium issue, not two
  (the title and the meta description give one high issue each, the two H1 elements one
  medium issue), and the completed summary carries the score 55, not 50.
\<close>

theorem seo_security_counterexample:
  "truthy (seo (testsToRun http_request)) \<and> truthy (security (testsToRun http_request))
   \<and> length (enabled_modules http_request) = 2
   \<and> url http_request = ''http://example.com''
   \<and> seo_page_title (seo_collab all_resolve) = Resolves []
   \<and> seo_meta_count (seo_collab all_resolve) = Resolves 0
   \<and> seo_h1_count (seo_collab all_resolve) = Resolves 2
   \<and> sec_goto (sec_collab all_resolve) ''http://example.com'' = Resolves (Some Map.empty)
   \<and> returned (SEOScanner_scan (seo_collab all_resolve))
       = [\<lparr>severity = ''high''\<rparr>, \<lparr>severity = ''high''\<rparr>, \<lparr>severity = ''medium''\<rparr>]
   \<and> returned (SecurityScanner_scan (sec_collab all_resolve) ''http://example.com'')
       = [\<lparr>severity = ''high''\<rparr>, \<lparr>severity = ''medium''\<rparr>, \<lparr>severity = ''medium''\<rparr>]
   \<and> last (store_log (performCompleteScan all_resolve http_request))
       = UpdateScan ''completed'' (Some (Finite 100))
           (Some (Summary \<lparr>totalIssues = 6, criticalIssues = 3, overallScore = 55,
                            completedTests = 2, totalTests = 2\<rparr>))
   \<and> (55::int) \<noteq> 50"
proof -
  have a: "truthy (seo (testsToRun http_request)) \<and> truthy (security (testsToRun http_request))
           \<and> url http_request = ''http://example.com''"
    by (simp add: http_request_def seo_and_security_def testsToRun_def truthy_def)
  have b: "seo_page_title (seo_collab all_resolve) = Resolves []
           \<and> seo_meta_count (seo_collab all_resolve) = Resolves 0
           \<and> seo_h1_count (seo_collab all_resolve) = Resolves 2
           \<and> sec_goto (sec_collab all_resolve) ''http://example.com'' = Resolves (Some Map.empty)"
    by (simp add: all_resolve_fields seo_page_def sec_page_def url_scheme_def)
  have c: "returned (SEOScanner_scan (seo_collab all_resolve))
       = [\<lparr>severity = ''high''\<rparr>, \<lparr>severity = ''high''\<rparr>, \<lparr>severity = ''medium''\<rparr>]
   \<and> returned (SecurityScanner_scan (sec_collab all_resolve) ''http://example.com'')
       = [\<lparr>severity = ''high''\<rparr>, \<lparr>severity = ''medium''\<rparr>, \<lparr>severity = ''medium''\<rparr>]"
    by (simp add: all_resolve_fields seo_page_scan sec_page_scan returned_def)
  have d: "last (store_log (performCompleteScan all_resolve http_request))
       = UpdateScan ''completed'' (Some (Finite 100))
           (Some (Summary \<lparr>totalIssues = 6, criticalIssues = 3, overallScore = 55,
                            completedTests = 2, totalTests = 2\<rparr>))"
    by (simp add: http_request_log)
  show ?thesis using a b c d http_request_enabled by simp
qed




text \<open>
  C4 (as the code has it). For every scanner: when the creation of its test row fails
  (the insert returns no row or rejects), the \<^verbatim>\<open>try\<close> block throws, no issue insert
  is sent and the scan call resolves with the empty list. When the \<^verbatim>\<open>try\<close> block
  throws for any reason and the update in the handler resolves, the scan call resolves
  with exactly the issues pushed before the exception: with the empty list when none
  had been pushed, and otherwise with those issues.
\<close>

theorem failed_creation_no_issues:
  "((\<forall>tid. scanner_test_insert m \<noteq> Resolves (Some tid))
      \<longrightarrow> (\<exists>e s. scanner_try m init_mstate = (Some e, s))
        \<and> result (scanner_scan m) = Resolves []
        \<and> filter is_issue_insert (requests (scanner_scan m)) = [])
   \<and> (scanner_try m init_mstate = (Some e, s) \<and> scanner_failed m = Resolves ()
      \<longrightarrow> result (scanner_scan m) = Resolves (issues s)
        \<and> (issues s = [] \<longrightarrow> result (scanner_scan m) = Resolves [])
        \<and> (issues s \<noteq> [] \<longrightarrow> result (scanner_scan m) \<noteq> Resolves []))"
proof (intro conjI impI)
  assume nc: "\<forall>tid. scanner_test_insert m \<noteq> Resolves (Some tid)"
  obtain x s' where t: "scanner_try m init_mstate = (x, s')"
    by (cases "scanner_try m init_mstate")
  note oc = scanner_try_outcome [OF t]
  have x: "x \<noteq> None" and i: "issues s' = []" and id: "testId s' = None"
    and snt: "\<exists>n c. sent s' = [InsertTest n c]"
    using oc nc by auto
  show "\<exists>e s. scanner_try m init_mstate = (Some e, s)"
    using t x by auto
  show "result (scanner_scan m) = Resolves []"
    using t x i id by (auto simp: scanner_scan_catch catch_block_def)
  show "filter is_issue_insert (requests (scanner_scan m)) = []"
    using t x i id snt by (auto simp: scanner_scan_catch catch_block_def)
next
  assume a: "scanner_try m init_mstate = (Some e, s) \<and> scanner_failed m = Resolves ()"
  then show r: "result (scanner_scan m) = Resolves (issues s)"
    by (cases "testId s") (simp_all add: scanner_scan_catch catch_block_def)
  show "result (scanner_scan m) = Resolves []" if "issues s = []"
    using r that by simp
  show "result (scanner_scan m) \<noteq> Resolves []" if "issues s \<noteq> []"
    using r that by simp
qed

theorem failed_creation_no_issues_witness:
  "(\<forall>tid. scanner_test_insert (SEO seo_no_row) \<noteq> Resolves (Some tid))
   \<and> scanner_try (SEO seo_no_row) init_mstate =
     (Some ''Failed to create SEO test record.'',
      \<lparr>issues = [], testId = None, sent = [InsertTest ''SEO Audit'' ''seo'']\<rparr>)
   \<and> result (scanner_scan (SEO seo_no_row)) = Resolves []
   \<and> filter is_issue_insert (requests (scanner_scan (SEO seo_no_row))) = []
   \<and> scanner_try (SEO seo_title_throws) init_mstate =
     (Some ''Execution context was destroyed'',
      \<lparr>issues = [], testId = Some ''test-seo'', sent = [InsertTest ''SEO Audit'' ''seo'']\<rparr>)
   \<and> scanner_failed (SEO seo_title_throws) = Resolves ()
   \<and> result (scanner_scan (SEO seo_title_throws)) = Resolves []
   \<and> scanner_try (SEO seo_meta_throws) init_mstate =
     (Some ''Target page, context or browser has been closed'',
      \<lparr>issues = [\<lparr>severity = ''high''\<rparr>], testId = Some ''test-seo'',
       sent = [InsertTest ''SEO Audit'' ''seo'',
               InsertIssue ''test-seo'' ''Missing Title Tag'' ''high'' ''seo'']\<rparr>)
   \<and> scanner_failed (SEO seo_meta_throws) = Resolves ()
   \<and> result (scanner_scan (SEO seo_meta_throws)) = Resolves [\<lparr>severity = ''high''\<rparr>]"
proof -
  let ?s2 = "\<lparr>issues = [], testId = Some ''test-seo'', sent = [InsertTest ''SEO Audit'' ''seo'']\<rparr>"
  let ?s3 = "\<lparr>issues = [\<lparr>severity = ''high''\<rparr>], testId = Some ''test-seo'',
              sent = [InsertTest ''SEO Audit'' ''seo'',
                      InsertIssue ''test-seo'' ''Missing Title Tag'' ''high'' ''seo'']\<rparr>"
  have nc: "\<forall>tid. scanner_test_insert (SEO seo_no_row) \<noteq> Resolves (Some tid)"
    by (simp add: seo_no_row_def)
  have t1: "scanner_try (SEO seo_no_row) init_mstate =
     (Some ''Failed to create SEO test record.'',
      \<lparr>issues = [], testId = None, sent = [InsertTest ''SEO Audit'' ''seo'']\<rparr>)"
    by (simp add: seo_no_row_try)
  have t2: "scanner_try (SEO seo_title_throws) init_mstate = (Some ''Execution context was destroyed'', ?s2)"
    by (simp add: seo_title_throws_try)
  have f2: "scanner_failed (SEO seo_title_throws) = Resolves ()"
    by (simp add: seo_title_throws_def seo_page_def)
  have t3: "scanner_try (SEO seo_meta_throws) init_mstate
              = (Some ''Target page, context or browser has been closed'', ?s3)"
    by (simp add: seo_meta_throws_try)
  have f3: "scanner_failed (SEO seo_meta_throws) = Resolves ()"
    by (simp add: seo_meta_throws_def seo_page_def)
  have r1: "result (scanner_scan (SEO seo_no_row)) = Resolves []
            \<and> filter is_issue_insert (requests (scanner_scan (SEO seo_no_row))) = []"
    using nc failed_creation_no_issues [of "SEO seo_no_row"] by blast
  have r2: "result (scanner_scan (SEO seo_title_throws)) = Resolves (issues ?s2)"
    using t2 f2
      failed_creation_no_issues [of "SEO seo_title_throws" "''Execution context was destroyed''" ?s2]
    by blast
  have r3: "result (scanner_scan (SEO seo_meta_throws)) = Resolves (issues ?s3)"
    using t3 f3
      failed_creation_no_issues
        [of "SEO seo_meta_throws" "''Target page, context or browser has been closed''" ?s3]
    by blast
  show ?thesis
    using nc t1 t2 f2 t3 f3 r1 r2 r3 by simp
qed

text \<open>
  C4 as stated fails: an exception after an issue has been pushed leaves that issue in
  the list that the scan call returns. Here the SEO scanner has recorded the issue of
  the empty title when the lookup of the meta description rejects; it marks its test
  row failed and returns that issue.
\<close>

theorem partial_result_counterexample:
  "scanner_try (SEO seo_meta_throws) init_mstate =
     (Some ''Target page, context or browser has been closed'',
      \<lparr>issues = [\<lparr>severity = ''high''\<rparr>], testId = Some ''test-seo'',
       sent = [InsertTest ''SEO Audit'' ''seo'',
               InsertIssue ''test-seo'' ''Missing Title Tag'' ''high'' ''seo'']\<rparr>)
   \<and> scanner_scan (SEO seo_meta_throws) =
     \<lparr>result = Resolves [\<lparr>severity = ''high''\<rparr>],
      requests = [InsertTest ''SEO Audit'' ''seo'',
                  InsertIssue ''test-seo'' ''Missing Title Tag'' ''high'' ''seo'',
                  UpdateTest ''test-seo'' ''failed'' None]\<rparr>
   \<and> result (scanner_scan (SEO seo_meta_throws)) \<noteq> Resolves []"
  by (simp add: seo_meta_throws_try seo_meta_throws_scan)

text \<open>
  C5 on the tests object \<^verbatim>\<open>{ seo: true, mobile: true }\<close>, every await resolving. One
  module is enabled, and one is run. \<^verbatim>\<open>totalTests\<close> counts the two truthy
  properties of the object: the progress written after the only module is
  10 + (1/2) * 80 = 50, and the summary of the completed scan has \<open>totalTests\<close> and
  \<open>completedTests\<close> equal to 2, not to the number of enabled modules.
\<close>

theorem summary_counts_extra_property:
  "enabled_modules seo_mobile_request = [''seo'']
   \<and> filter is_test_insert (store_log (performCompleteScan all_resolve seo_mobile_request))
       = [InsertTest ''SEO Audit'' ''seo'']
   \<and> progress_writes (store_log (performCompleteScan all_resolve seo_mobile_request))
       = [Finite 0, Finite 5, Finite 50, Finite 100]
   \<and> last (store_log (performCompleteScan all_resolve seo_mobile_request))
       = UpdateScan ''completed'' (Some (Finite 100))
           (Some (Summary \<lparr>totalIssues = 3, criticalIssues = 2, overallScore = 75,
                            completedTests = 2, totalTests = 2\<rparr>))"
proof -
  have "enabled_modules seo_mobile_request = [''seo'']"
    by (simp add: enabled_modules_def testsToRun_def seo_mobile_request_def seo_and_mobile_def
          truthy_def)
  then show ?thesis
    by (simp add: seo_mobile_request_log)
qed




text \<open>
  C7. Take the requests that one scan sends, and any selection of them in the order
  sent (the requests sent up to some moment, or those among them that took effect).
  The progress values that the selection writes to the scan row never decrease, and if
  the row holds progress 100 after it, the status of the row is completed or failed.
\<close>

theorem progress_nondecreasing:
  assumes "subseq applied (store_log (performCompleteScan env req))"
  shows "(\<exists>ps. progress_writes applied = map Finite ps \<and> sorted ps)
       \<and> (row_progress (row_after applied) = Finite 100
            \<longrightarrow> row_status (row_after applied) = ''completed''
              \<or> row_status (row_after applied) = ''failed'')"
proof -
  let ?T = "count_truthy (testsToRun req)"
  let ?n = "length (enabled_modules req)"
  let ?L = "store_log (performCompleteScan env req)"
  obtain m where w: "progress_writes ?L = map Finite (take m (progress_sequence ?T ?n))"
    using writes_shape [of env req] by blast
  from subseq_progress_writes [OF assms w] obtain ps where
    ps: "progress_writes applied = map Finite ps" "subseq ps (take m (progress_sequence ?T ?n))"
    by blast
  have "sorted (take m (progress_sequence ?T ?n))"
    using sorted_progress_sequence [OF enabled_le_total] by (rule sorted_wrt_take)
  then have "sorted ps" using ps(2) by (rule subseq_sorted [rotated])
  then have A: "\<exists>ps. progress_writes applied = map Finite ps \<and> sorted ps"
    using ps(1) by blast
  obtain tail where sh: "subseq (scan_updates ?L)
            (expected_updates ?T ?n (make_summary (collected_issues env req) ?T) @ tail)"
    and tl: "tail = [] \<or> (\<exists>e. tail = [fail_update e])"
    using log_full_shape [of env req] by blast
  from tl obtain e where tl': "tail = [] \<or> tail = [fail_update e]" by auto
  have "subseq (scan_updates applied) (scan_updates ?L)"
    using assms by (simp add: scan_updates_def)
  then have sub: "subseq (scan_updates applied)
            (expected_updates ?T ?n (make_summary (collected_issues env req) ?T) @ tail)"
    using sh by (rule subseq_order.trans)
  have B: "row_status (row_after applied) = ''completed'' \<or> row_status (row_after applied) = ''failed''"
    if "row_progress (row_after applied) = Finite 100"
    using row_of_applied [OF sub tl' _ enabled_le_total] that row_after_scan_updates [of applied]
    by simp
  show ?thesis using A B by blast
qed

theorem progress_nondecreasing_witness:
  "subseq (store_log (performCompleteScan all_resolve http_request))
          (store_log (performCompleteScan all_resolve http_request))
   \<and> row_progress (row_after (store_log (performCompleteScan all_resolve http_request))) = Finite 100
   \<and> row_status (row_after (store_log (performCompleteScan all_resolve http_request))) = ''completed''
   \<and> (\<exists>ps. progress_writes (store_log (performCompleteScan all_resolve http_request)) = map Finite ps
           \<and> sorted ps)"
proof -
  let ?L = "store_log (performCompleteScan all_resolve http_request)"
  have s: "subseq ?L ?L" by simp
  have p: "row_progress (row_after ?L) = Finite 100"
    by (simp add: http_request_log row_after_def queued_row_def)
  have nf: "row_status (row_after ?L) \<noteq> ''failed''"
    by (simp add: http_request_log row_after_def queued_row_def)
  show ?thesis
    using s p nf progress_nondecreasing [OF s] by blast
qed

text \<open>
  C8. SEO scanner, once its test row is created. For a title of 61 characters it sends
  exactly one issue titled Title Tag Too Long, of severity medium, and none titled
  Missing Title Tag; and when that insert resolves, what the scan call returns is one
  medium issue followed by exactly what it returns for the same page with a title that
  raises no issue. For an empty title the same holds with one issue titled Missing Title
  Tag, of severity high, and none titled Title Tag Too Long. (For the page with the
  title that raises no issue, neither of the two is sent.) For a page with exactly one
  H1 element the check of the H1 elements does nothing, no issue titled Missing H1 Tag
  or Multiple H1 Tags is sent, and the scan call returns at most the two issues of the
  title and of the meta description.
\<close>

theorem seo_title_and_h1:
  "(seo_test_insert env = Resolves (Some tid) \<and> seo_page_title env = Resolves title \<and> length title = 61
      \<longrightarrow> issues_titled ''Title Tag Too Long'' (requests (SEOScanner_scan env)) = [''medium'']
          \<and> issues_titled ''Missing Title Tag'' (requests (SEOScanner_scan env)) = []
          \<and> (seo_title_issue env = Resolves ()
               \<longrightarrow> result (SEOScanner_scan env)
                     = with_issue \<lparr>severity = ''medium''\<rparr>
                         (result (SEOScanner_scan (env\<lparr>seo_page_title := Resolves plain_title\<rparr>)))))
   \<and> (seo_test_insert env = Resolves (Some tid) \<and> seo_page_title env = Resolves []
      \<longrightarrow> issues_titled ''Missing Title Tag'' (requests (SEOScanner_scan env)) = [''high'']
          \<and> issues_titled ''Title Tag Too Long'' (requests (SEOScanner_scan env)) = []
          \<and> (seo_title_issue env = Resolves ()
               \<longrightarrow> result (SEOScanner_scan env)
                     = with_issue \<lparr>severity = ''high''\<rparr>
                         (result (SEOScanner_scan (env\<lparr>seo_page_title := Resolves plain_title\<rparr>)))))
   \<and> (seo_test_insert env = Resolves (Some tid)
      \<longrightarrow> issues_titled ''Title Tag Too Long''
            (requests (SEOScanner_scan (env\<lparr>seo_page_title := Resolves plain_title\<rparr>))) = []
          \<and> issues_titled ''Missing Title Tag''
              (requests (SEOScanner_scan (env\<lparr>seo_page_title := Resolves plain_title\<rparr>))) = [])
   \<and> (seo_h1_count env = Resolves 1
      \<longrightarrow> seo_check_h1 env tid = skip
          \<and> issues_titled ''Missing H1 Tag'' (requests (SEOScanner_scan env)) = []
          \<and> issues_titled ''Multiple H1 Tags'' (requests (SEOScanner_scan env)) = []
          \<and> (\<forall>xs. result (SEOScanner_scan env) = Resolves xs \<longrightarrow> length xs \<le> 2))"
proof (intro conjI impI allI)
  assume a: "seo_test_insert env = Resolves (Some tid) \<and> seo_page_title env = Resolves title \<and> length title = 61"
  then have ne: "title \<noteq> []" by auto
  show "issues_titled ''Title Tag Too Long'' (requests (SEOScanner_scan env)) = [''medium'']"
    using a ne seo_title_issues [of env tid title "''Title Tag Too Long''"]
    by (simp add: seo_check_title_def createIssue_sent issues_titled_def)
  show "issues_titled ''Missing Title Tag'' (requests (SEOScanner_scan env)) = []"
    using a ne seo_title_issues [of env tid title "''Missing Title Tag''"]
    by (simp add: seo_check_title_def createIssue_sent issues_titled_def)
  show "result (SEOScanner_scan env)
          = with_issue \<lparr>severity = ''medium''\<rparr>
              (result (SEOScanner_scan (env\<lparr>seo_page_title := Resolves plain_title\<rparr>)))"
    if "seo_title_issue env = Resolves ()"
    using a that by (intro seo_title_in_front [of env tid title]) simp_all
next
  assume b: "seo_test_insert env = Resolves (Some tid) \<and> seo_page_title env = Resolves []"
  show "issues_titled ''Missing Title Tag'' (requests (SEOScanner_scan env)) = [''high'']"
    using b seo_title_issues [of env tid "[]" "''Missing Title Tag''"]
    by (simp add: seo_check_title_def createIssue_sent issues_titled_def)
  show "issues_titled ''Title Tag Too Long'' (requests (SEOScanner_scan env)) = []"
    using b seo_title_issues [of env tid "[]" "''Title Tag Too Long''"]
    by (simp add: seo_check_title_def createIssue_sent issues_titled_def)
  show "result (SEOScanner_scan env)
          = with_issue \<lparr>severity = ''high''\<rparr>
              (result (SEOScanner_scan (env\<lparr>seo_page_title := Resolves plain_title\<rparr>)))"
    if "seo_title_issue env = Resolves ()"
    using b that by (intro seo_title_in_front [of env tid "[]"]) simp_all
next
  assume i: "seo_test_insert env = Resolves (Some tid)"
  show "issues_titled ''Title Tag Too Long''
          (requests (SEOScanner_scan (env\<lparr>seo_page_title := Resolves plain_title\<rparr>))) = []"
    by (rule seo_plain_title_silent [OF i]) simp
  show "issues_titled ''Missing Title Tag''
          (requests (SEOScanner_scan (env\<lparr>seo_page_title := Resolves plain_title\<rparr>))) = []"
    by (rule seo_plain_title_silent [OF i]) simp
next
  assume c: "seo_h1_count env = Resolves 1"
  show "seo_check_h1 env tid = skip"
    using c by (simp add: seo_check_h1_def)
  have st: "stable (sent_where (is_issue_titled T)) (SEOScanner_try env)"
    if "T = ''Missing H1 Tag'' \<or> T = ''Multiple H1 Tags''" for T
    unfolding SEOScanner_try_def
    using that
    by (intro stable_sent_create_test stable_and_then seo_title_not_h1 seo_meta_not_title
          seo_h1_single [OF c] seo_complete_silent) auto
  have "issues_titled T (requests (SEOScanner_scan env)) = []"
    if "T = ''Missing H1 Tag'' \<or> T = ''Multiple H1 Tags''" for T
    using stableD [OF st [OF that], of init_mstate]
    by (simp add: SEOScanner_scan_def issues_titled_scan sent_where_def init_mstate_def)
  then show "issues_titled ''Missing H1 Tag'' (requests (SEOScanner_scan env)) = []"
    and "issues_titled ''Multiple H1 Tags'' (requests (SEOScanner_scan env)) = []"
    by simp_all
  show "length xs \<le> 2" if "result (SEOScanner_scan env) = Resolves xs" for xs
    using c that by (rule seo_h1_single_returns)
qed

theorem seo_title_and_h1_witness:
  "seo_test_insert long_title_page = Resolves (Some ''test-seo'')
   \<and> seo_page_title long_title_page = Resolves (replicate 61 (CHR ''a''))
   \<and> length (replicate 61 (CHR ''a'')) = 61
   \<and> seo_title_issue long_title_page = Resolves ()
   \<and> seo_h1_count long_title_page = Resolves 1
   \<and> issues_titled ''Title Tag Too Long'' (requests (SEOScanner_scan long_title_page)) = [''medium'']
   \<and> issues_titled ''Missing Title Tag'' (requests (SEOScanner_scan long_title_page)) = []
   \<and> result (SEOScanner_scan (long_title_page\<lparr>seo_page_title := Resolves plain_title\<rparr>))
       = Resolves [\<lparr>severity = ''high''\<rparr>]
   \<and> result (SEOScanner_scan long_title_page)
       = Resolves [\<lparr>severity = ''medium''\<rparr>, \<lparr>severity = ''high''\<rparr>]
   \<and> seo_check_h1 long_title_page ''test-seo'' = skip
   \<and> issues_titled ''Missing H1 Tag'' (requests (SEOScanner_scan long_title_page)) = []
   \<and> issues_titled ''Multiple H1 Tags'' (requests (SEOScanner_scan long_title_page)) = []
   \<and> seo_test_insert seo_page = Resolves (Some ''test-seo'')
   \<and> seo_page_title seo_page = Resolves []
   \<and> seo_title_issue seo_page = Resolves ()
   \<and> issues_titled ''Missing Title Tag'' (requests (SEOScanner_scan seo_page)) = [''high'']
   \<and> issues_titled ''Title Tag Too Long'' (requests (SEOScanner_scan seo_page)) = []
   \<and> result (SEOScanner_scan (seo_page\<lparr>seo_page_title := Resolves plain_title\<rparr>))
       = Resolves [\<lparr>severity = ''high''\<rparr>, \<lparr>severity = ''medium''\<rparr>]
   \<and> result (SEOScanner_scan seo_page)
       = Resolves [\<lparr>severity = ''high''\<rparr>, \<lparr>severity = ''high''\<rparr>, \<lparr>severity = ''medium''\<rparr>]"
proof -
  have a: "seo_test_insert long_title_page = Resolves (Some ''test-seo'')
           \<and> seo_page_title long_title_page = Resolves (replicate 61 (CHR ''a''))
           \<and> length (replicate 61 (CHR ''a'')) = 61"
    and ai: "seo_title_issue long_title_page = Resolves ()"
    by (simp_all add: long_title_page_def seo_page_def)
  have b: "seo_test_insert seo_page = Resolves (Some ''test-seo'') \<and> seo_page_title seo_page = Resolves []"
    and bi: "seo_title_issue seo_page = Resolves ()"
    by (simp_all add: seo_page_def)
  have c: "seo_h1_count long_title_page = Resolves 1"
    by (simp add: long_title_page_def)
  note A = seo_title_and_h1 [of long_title_page "''test-seo''" "replicate 61 (CHR ''a'')"]
  note B = seo_title_and_h1 [of seo_page "''test-seo''" "[]"]
  have A1: "issues_titled ''Title Tag Too Long'' (requests (SEOScanner_scan long_title_page)) = [''medium'']
            \<and> issues_titled ''Missing Title Tag'' (requests (SEOScanner_scan long_title_page)) = []
            \<and> result (SEOScanner_scan long_title_page)
                = with_issue \<lparr>severity = ''medium''\<rparr>
                    (result (SEOScanner_scan (long_title_page\<lparr>seo_page_title := Resolves plain_title\<rparr>)))"
    using A a ai by blast
  have A2: "seo_check_h1 long_title_page ''test-seo'' = skip
            \<and> issues_titled ''Missing H1 Tag'' (requests (SEOScanner_scan long_title_page)) = []
            \<and> issues_titled ''Multiple H1 Tags'' (requests (SEOScanner_scan long_title_page)) = []"
    using A c by blast
  have B1: "issues_titled ''Missing Title Tag'' (requests (SEOScanner_scan seo_page)) = [''high'']
            \<and> issues_titled ''Title Tag Too Long'' (requests (SEOScanner_scan seo_page)) = []
            \<and> result (SEOScanner_scan seo_page)
                = with_issue \<lparr>severity = ''high''\<rparr>
                    (result (SEOScanner_scan (seo_page\<lparr>seo_page_title := Resolves plain_title\<rparr>)))"
    using B b bi by blast
  show ?thesis
    using a ai b bi c A1 A2 B1
    by (simp add: long_title_plain_scan seo_page_plain_scan)
qed



text \<open>
  C10 on the tests object \<^verbatim>\<open>{ performance: false, accessibility: false, seo: false,
  security: false, best_practices: false, mobile: true }\<close>, every await resolving. No
  module is enabled and none runs, no progress is written after a module, and the scan
  row goes to progress 0, to progress 5 and to the completed state with no issue and
  score 100; but \<^verbatim>\<open>totalTests\<close> counts the truthy property that names no module, and
  the summary has \<open>totalTests\<close> and \<open>completedTests\<close> equal to 1, not to 0.
\<close>

theorem no_module_extra_property:
  "enabled_modules mobile_only_request = []
   \<and> performCompleteScan all_resolve mobile_only_request =
       \<lparr>rejected = None,
        store_log =
          [UpdateScan ''running'' (Some (Finite 0)) None,
           UpdateScan ''running'' (Some (Finite 5)) None,
           UpdateScan ''completed'' (Some (Finite 100))
             (Some (Summary \<lparr>totalIssues = 0, criticalIssues = 0, overallScore = 100,
                              completedTests = 1, totalTests = 1\<rparr>))]\<rparr>"
proof -
  have t: "testsToRun mobile_only_request = mobile_only"
    by (simp add: testsToRun_def mobile_only_request_def)
  have n: "count_truthy mobile_only = 1"
    by (simp add: count_truthy_def object_values_def mobile_only_def)
  have flags: "\<not> truthy (performance mobile_only)" "\<not> truthy (accessibility mobile_only)"
    "\<not> truthy (seo mobile_only)" "\<not> truthy (security mobile_only)"
    "\<not> truthy (best_practices mobile_only)"
    by (simp_all add: mobile_only_def truthy_def)
  have "enabled_modules mobile_only_request = []"
    by (simp add: enabled_modules_def t flags)
  moreover have "performCompleteScan all_resolve mobile_only_request =
       \<lparr>rejected = None,
        store_log =
          [UpdateScan ''running'' (Some (Finite 0)) None,
           UpdateScan ''running'' (Some (Finite 5)) None,
           UpdateScan ''completed'' (Some (Finite 100))
             (Some (Summary \<lparr>totalIssues = 0, criticalIssues = 0, overallScore = 100,
                              completedTests = 1, totalTests = 1\<rparr>))]\<rparr>"
    by (simp add: performCompleteScan_def orchestrator_try_def run_scanners_def t n flags
          and_then_def setup_all_resolve all_resolve_fields Let_def run_scanner_off
          completeScan_def await_scan_update_def await_ext_def make_summary_def
          calculateOverallScore_def)
  ultimately show ?thesis by simp
qed

end
